theory Spec2Isabelle
  imports Main "HOL-Library.Word"
begin

unbundle bit_operations_syntax

section \<open>Machine types and errors\<close>

text \<open>
  Solidity's \<open>uint256\<close> is a 256-bit word and an \<open>address\<close> a 160-bit word.
  A call of the contract either returns or reverts; a revert is a value of \<open>error\<close>.
  The constructors name the \<open>require\<close> messages of \<open>shuffle.sol\<close>:
  \<^item> \<open>InvalidState\<close>: "Not in register phase", "Not in shuffle phase",
    "Contract must be in dealing phase to call this function";
  \<^item> \<open>NotYourTurn\<close>: "Not your turn yet", "not recognized player";
  \<^item> \<open>InvalidPublicKey\<close>: "Invalid public key";
  \<^item> \<open>IllFormedDelta\<close>: "Ill-formated delta";
  \<^item> \<open>NotOnCurve\<close>: "Not on baby jubjub curve";
  \<^item> \<open>IllFormedSelector\<close>: "Ill-formated selector";
  \<^item> \<open>DoubleDeal\<close>: "detected double dealing the same card";
  \<^item> \<open>CardNotFullyDecrypted\<close>: "Card has not been fully decrypted";
  \<^item> \<open>NotGameContract\<close>: "Caller is not game contract";
  \<^item> \<open>NotOwner\<close>: the revert of \<open>onlyOwner\<close>;
  \<^item> \<open>ProofFailed\<close>: the revert of a verifier contract on a proof it rejects;
  \<^item> \<open>Panic\<close>: the compiler's checks (an array index out of bounds, an overflow or
    underflow of checked arithmetic).
\<close>

type_synonym uint256 = "256 word"
type_synonym address = "160 word"

datatype error =
    InvalidState
  | NotYourTurn
  | InvalidPublicKey
  | IllFormedDelta
  | NotOnCurve
  | IllFormedSelector
  | DoubleDeal
  | CardNotFullyDecrypted
  | NotGameContract
  | NotOwner
  | ProofFailed
  | Panic

section \<open>Library CurveBabyJubJub\<close>

definition A :: uint256 where
  "A = 168700"

definition D :: uint256 where
  "D = 168696"

definition Q :: uint256 where
  "Q = 21888242871839275222246405745257275088548364400416034343698204186575808495617"

text \<open>
  The EVM instructions \<open>ADDMOD\<close> and \<open>MULMOD\<close> compute on unbounded integers and
  reduce at the end. Solidity makes them panic on a zero modulus; every call of the
  library passes \<open>Q\<close>.
\<close>

definition addmod :: "uint256 \<Rightarrow> uint256 \<Rightarrow> uint256 \<Rightarrow> uint256" where
  "addmod a b m = of_nat ((unat a + unat b) mod unat m)"

definition mulmod :: "uint256 \<Rightarrow> uint256 \<Rightarrow> uint256 \<Rightarrow> uint256" where
  "mulmod a b m = of_nat ((unat a * unat b) mod unat m)"

text \<open>
  \<open>submod\<close>: \<open>aNN += _mod\<close> and \<open>aNN - _b\<close> are checked operations of Solidity
  0.8. The library only calls \<open>submod\<close> on values below \<open>Q\<close>, where neither
  can trip (lemma \<open>submod_checked_arith\<close> below), so the word operations stand for them.
\<close>

definition submod :: "uint256 \<Rightarrow> uint256 \<Rightarrow> uint256 \<Rightarrow> uint256" where
  "submod a b m = (let aNN = (if a \<le> b then a + m else a) in addmod (aNN - b) 0 m)"

text \<open>
  \<open>expmod\<close> calls the precompiled contract at address 5, which returns
  \<open>b ^ e mod m\<close>.
\<close>

definition expmod :: "uint256 \<Rightarrow> uint256 \<Rightarrow> uint256 \<Rightarrow> uint256" where
  "expmod b e m = of_nat ((unat b ^ unat e) mod unat m)"

definition inverse_fe :: "uint256 \<Rightarrow> uint256" where
  "inverse_fe a = expmod a (Q - 2) Q"

definition pointAdd :: "uint256 \<Rightarrow> uint256 \<Rightarrow> uint256 \<Rightarrow> uint256 \<Rightarrow> uint256 \<times> uint256" where
  "pointAdd x1 y1 x2 y2 =
    (if x1 = 0 \<and> y1 = 0 then (x2, y2)
     else if x2 = 0 \<and> y1 = 0 then (x1, y1)
     else
       let x1x2 = mulmod x1 x2 Q;
           y1y2 = mulmod y1 y2 Q;
           dx1x2y1y2 = mulmod D (mulmod x1x2 y1y2 Q) Q;
           x3Num = addmod (mulmod x1 y2 Q) (mulmod y1 x2 Q) Q;
           y3Num = submod y1y2 (mulmod A x1x2 Q) Q
       in (mulmod x3Num (inverse_fe (addmod 1 dx1x2y1y2 Q)) Q,
           mulmod y3Num (inverse_fe (submod 1 dx1x2y1y2 Q)) Q))"

text \<open>
  The loop of \<open>pointMul\<close>: \<open>remaining\<close> is halved in every round, so the loop ends.
\<close>

function pointMul_loop ::
  "uint256 \<Rightarrow> uint256 \<Rightarrow> uint256 \<Rightarrow> uint256 \<Rightarrow> uint256 \<Rightarrow> uint256 \<times> uint256" where
  "pointMul_loop remaining px py ax ay =
    (if remaining \<noteq> 0 then
       (let acc = (if (remaining AND 1) \<noteq> 0 then pointAdd ax ay px py else (ax, ay));
            p = pointAdd px py px py
        in pointMul_loop (remaining div 2) (fst p) (snd p) (fst acc) (snd acc))
     else (ax, ay))"
  by pat_completeness auto
termination
proof (relation "measure (\<lambda>(remaining, px, py, ax, ay). unat remaining)")
  show "wf (measure (\<lambda>(remaining, px, py, ax, ay). unat remaining))"
    by simp
next
  fix remaining px py ax ay :: uint256
  fix acc p :: "uint256 \<times> uint256"
  assume "remaining \<noteq> 0"
  then have "0 < unat remaining"
    by (simp add: unat_gt_0)
  then have "unat (remaining div 2) < unat remaining"
    by (simp add: unat_div)
  then show "((remaining div 2, fst p, snd p, fst acc, snd acc), (remaining, px, py, ax, ay))
      \<in> measure (\<lambda>(remaining, px, py, ax, ay). unat remaining)"
    by simp
qed

declare pointMul_loop.simps [simp del]

definition pointMul :: "uint256 \<Rightarrow> uint256 \<Rightarrow> uint256 \<Rightarrow> uint256 \<times> uint256" where
  "pointMul x1 y1 d = pointMul_loop d x1 y1 0 0"

definition isOnCurve :: "uint256 \<Rightarrow> uint256 \<Rightarrow> bool" where
  "isOnCurve x y =
    (let xSq = mulmod x x Q;
         ySq = mulmod y y Q;
         lhs = addmod (mulmod A xSq Q) ySq Q;
         rhs = addmod 1 (mulmod (mulmod D xSq Q) ySq Q) Q
     in submod lhs rhs Q = 0)"

section \<open>Contract Shuffle: storage\<close>

text \<open>
  Modelled from the spec: the enumeration \<open>State\<close> is declared in \<open>IShuffle.sol\<close>,
  which is not among the sources. \<open>Registration\<close>, \<open>ShufflingDeck\<close> and
  \<open>DealingCard\<close> are the members the contract names (the spec's Registration, Shuffle and
  Deal); the other members are those of the spec's list of states.
\<close>

datatype State =
    Uncreated
  | Created
  | Registration
  | ShufflingDeck
  | DealingCard
  | Open
  | GameError
  | Complete

text \<open>
  Modelled from the spec: the structs \<open>Deck\<close>, \<open>Card\<close>, \<open>CardDeal\<close> and
  \<open>PlayerInfo\<close> are declared in \<open>IShuffle.sol\<close> too. Their fields are those the
  contract reads and writes. \<open>X0\<close> and \<open>X1\<close> are arrays of 52 words (lists of length 52,
  see \<open>wf_deck\<close>), \<open>Selector\<close> and \<open>aggregatedPk\<close> arrays of two words (pairs),
  \<open>playerAddr\<close> and \<open>playerPk\<close> dynamic arrays (the contract pushes to them);
  \<open>cards\<close> and \<open>record\<close> are read at unchecked indices and are mappings. The
  fields of \<open>Card\<close> are prefixed with \<open>card\<close> (two records cannot share a field
  name), and \<open>record\<close>, a keyword, is \<open>deal_record\<close>.
\<close>

record Deck =
  X0 :: "uint256 list"
  X1 :: "uint256 list"
  Selector :: "uint256 \<times> uint256"

record Card =
  card_X0 :: uint256
  card_Y0 :: uint256
  card_X1 :: uint256
  card_Y1 :: uint256

record CardDeal =
  cards :: "uint256 \<Rightarrow> Card"
  deal_record :: "uint256 \<Rightarrow> uint256"

record PlayerInfo =
  playerAddr :: "address list"
  playerPk :: "uint256 list"
  aggregatedPk :: "uint256 \<times> uint256"

text \<open>
  The storage of the contract. A Solidity mapping is a total function. The two verifier
  contracts are outside the repository: each is the predicate that tells which pairs of a
  proof (eight words) and a list of public signals its \<open>verifyProof\<close> accepts; on the
  others \<open>verifyProof\<close> reverts, which reverts the calling transaction.
\<close>

record store =
  owner :: address
  shuffleEncryptVerifier :: "uint256 list \<Rightarrow> uint256 list \<Rightarrow> bool"
  decryptVerifier :: "uint256 list \<Rightarrow> uint256 list \<Rightarrow> bool"
  gameContract :: address
  numPlayers :: "uint256 \<Rightarrow> uint256"
  decks :: "uint256 \<Rightarrow> Deck"
  initialDeck :: Deck
  cardDeals :: "uint256 \<Rightarrow> CardDeal"
  playerInfos :: "uint256 \<Rightarrow> PlayerInfo"
  playerIndexes :: "uint256 \<Rightarrow> uint256"
  states :: "uint256 \<Rightarrow> State"

definition INVALID_CARD_INDEX :: uint256 where
  "INVALID_CARD_INDEX = 999999"

definition wf_deck :: "Deck \<Rightarrow> bool" where
  "wf_deck d = (length (X0 d) = 52 \<and> length (X1 d) = 52)"

text \<open>A value of type \<open>Deck memory\<close> starts with every word zero.\<close>

definition zero_deck :: Deck where
  "zero_deck = \<lparr>X0 = replicate 52 0, X1 = replicate 52 0, Selector = (0, 0)\<rparr>"

text \<open>
  A transaction that reverts leaves the storage as it was: \<open>transact\<close> runs a call and
  returns the error, if any, with the storage after the transaction.
\<close>

definition transact :: "(store \<Rightarrow> error + store) \<Rightarrow> store \<Rightarrow> error option \<times> store" where
  "transact f s = (case f s of Inl e \<Rightarrow> (Some e, s) | Inr s' \<Rightarrow> (None, s'))"

section \<open>Contract Shuffle: functions\<close>

definition setGameSettings :: "address \<Rightarrow> uint256 \<Rightarrow> uint256 \<Rightarrow> store \<Rightarrow> error + store" where
  "setGameSettings msg_sender numPlayers' gameId s =
    (if gameContract s \<noteq> msg_sender then Inl NotGameContract
     else Inr (s\<lparr>numPlayers := (numPlayers s)(gameId := numPlayers'),
                 playerIndexes := (playerIndexes s)(gameId := 0),
                 states := (states s)(gameId := Registration)\<rparr>))"

definition setGameContract :: "address \<Rightarrow> address \<Rightarrow> store \<Rightarrow> error + store" where
  "setGameContract msg_sender gameContract' s =
    (if owner s \<noteq> msg_sender then Inl NotOwner
     else Inr (s\<lparr>gameContract := gameContract'\<rparr>))"

definition initDeck :: "uint256 \<Rightarrow> store \<Rightarrow> store" where
  "initDeck gameId s =
    (let deck0 = zero_deck;
         deck1 = deck0\<lparr>X0 := fold (\<lambda>i xs. xs[i := 0]) [0..<52] (X0 deck0)\<rparr>;
         deck2 = deck1\<lparr>X1 := (X1 deck1)
         [0 := 5299619240641551281634865583518297030282874472190772894086521144482721001553,
          1 := 10031262171927540148667355526369034398030886437092045105752248699557385197826,
          2 := 2763488322167937039616325905516046217694264098671987087929565332380420898366,
          3 := 12252886604826192316928789929706397349846234911198931249025449955069330867144,
          4 := 11480966271046430430613841218147196773252373073876138147006741179837832100836,
          5 := 10483991165196995731760716870725509190315033255344071753161464961897900552628,
          6 := 20092560661213339045022877747484245238324772779820628739268223482659246842641,
          7 := 7582035475627193640797276505418002166691739036475590846121162698650004832581,
          8 := 4705897243203718691035604313913899717760209962238015362153877735592901317263,
          9 := 153240920024090527149238595127650983736082984617707450012091413752625486998,
          10 := 21605515851820432880964235241069234202284600780825340516808373216881770219365,
          11 := 13745444942333935831105476262872495530232646590228527111681360848540626474828,
          12 := 2645068156583085050795409844793952496341966587935372213947442411891928926825,
          13 := 6271573312546148160329629673815240458676221818610765478794395550121752710497,
          14 := 5958787406588418500595239545974275039455545059833263445973445578199987122248,
          15 := 20535751008137662458650892643857854177364093782887716696778361156345824450120,
          16 := 13563836234767289570509776815239138700227815546336980653685219619269419222465,
          17 := 4275129684793209100908617629232873490659349646726316579174764020734442970715,
          18 := 3580683066894261344342868744595701371983032382764484483883828834921866692509,
          19 := 18524760469487540272086982072248352918977679699605098074565248706868593560314,
          20 := 2154427024935329939176171989152776024124432978019445096214692532430076957041,
          21 := 1816241298058861911502288220962217652587610581887494755882131860274208736174,
          22 := 3639172054127297921474498814936207970655189294143443965871382146718894049550,
          23 := 18153584759852955321993060909315686508515263790058719796143606868729795593935,
          24 := 5176949692172562547530994773011440485202239217591064534480919561343940681001,
          25 := 11782448596564923920273443067279224661023825032511758933679941945201390953176,
          26 := 15115414180166661582657433168409397583403678199440414913931998371087153331677,
          27 := 16103312053732777198770385592612569441925896554538398460782269366791789650450,
          28 := 15634573854256261552526691928934487981718036067957117047207941471691510256035,
          29 := 13522014300368527857124448028007017231620180728959917395934408529470498717410,
          30 := 8849597151384761754662432349647792181832839105149516511288109154560963346222,
          31 := 17637772869292411350162712206160621391799277598172371975548617963057997942415,
          32 := 17865442088336706777255824955874511043418354156735081989302076911109600783679,
          33 := 9625567289404330771610619170659567384620399410607101202415837683782273761636,
          34 := 19373814649267709158886884269995697909895888146244662021464982318704042596931,
          35 := 7390138716282455928406931122298680964008854655730225979945397780138931089133,
          36 := 15569307001644077118414951158570484655582938985123060674676216828593082531204,
          37 := 5574029269435346901610253460831153754705524733306961972891617297155450271275,
          38 := 19413618616187267723274700502268217266196958882113475472385469940329254284367,
          39 := 4150841881477820062321117353525461148695942145446006780376429869296310489891,
          40 := 13006218950937475527552755960714370451146844872354184015492231133933291271706,
          41 := 2756817265436308373152970980469407708639447434621224209076647801443201833641,
          42 := 20753332016692298037070725519498706856018536650957009186217190802393636394798,
          43 := 18677353525295848510782679969108302659301585542508993181681541803916576179951,
          44 := 14183023947711168902945925525637889799656706942453336661550553836881551350544,
          45 := 9918129980499720075312297335985446199040718987227835782934042132813716932162,
          46 := 13387158171306569181335774436711419178064369889548869994718755907103728849628,
          47 := 6746289764529063117757275978151137209280572017166985325039920625187571527186,
          48 := 17386594504742987867709199123940407114622143705013582123660965311449576087929,
          49 := 11393356614877405198783044711998043631351342484007264997044462092350229714918,
          50 := 16257260290674454725761605597495173678803471245971702030005143987297548407836,
          51 := 3673082978401597800140653084819666873666278094336864183112751111018951461681]\<rparr>;
         deck3 = deck2\<lparr>Selector := (4503599627370495, 3075935501959818)\<rparr>
     in if gameId = 0 then s\<lparr>initialDeck := deck3\<rparr>
        else s\<lparr>decks := (decks s)(gameId := deck3)\<rparr>)"

text \<open>
  The loop of \<open>register\<close> that sums the public keys: \<open>i\<close> runs from 1 below
  \<open>numPlayers\<close> (so \<open>i++\<close> cannot overflow); \<open>2 * i\<close> is checked
  arithmetic and both reads of \<open>playerPk\<close> are bounds-checked.
\<close>

function aggregate_loop ::
  "uint256 list \<Rightarrow> nat \<Rightarrow> nat \<Rightarrow> uint256 \<times> uint256 \<Rightarrow> error + uint256 \<times> uint256" where
  "aggregate_loop pks n i agg =
    (if i < n then
       (if 2 * i + 1 < 2 ^ 256 \<and> 2 * i + 1 < length pks
        then aggregate_loop pks n (i + 1)
               (pointAdd (fst agg) (snd agg) (pks ! (2 * i)) (pks ! (2 * i + 1)))
        else Inl Panic)
     else Inr agg)"
  by pat_completeness auto
termination
  by (relation "measure (\<lambda>(pks, n, i, agg). n - i)") auto

declare aggregate_loop.simps [simp del]

definition register ::
  "address \<Rightarrow> address \<Rightarrow> uint256 \<times> uint256 \<Rightarrow> uint256 \<Rightarrow> store \<Rightarrow> error + store" where
  "register msg_sender permanentAccount pk gameId s =
    (if gameContract s \<noteq> msg_sender then Inl NotGameContract
     else if states s gameId \<noteq> Registration then Inl InvalidState
     else if \<not> isOnCurve (fst pk) (snd pk) then Inl InvalidPublicKey
     else
       let info = playerInfos s gameId;
           info1 = info\<lparr>playerAddr := playerAddr info @ [permanentAccount],
                        playerPk := playerPk info @ [fst pk, snd pk]\<rparr>
       in if playerIndexes s gameId = - 1 then Inl Panic
          else
            let turn = playerIndexes s gameId + 1;
                s1 = s\<lparr>playerInfos := (playerInfos s)(gameId := info1),
                       playerIndexes := (playerIndexes s)(gameId := turn)\<rparr>
            in if turn = numPlayers s gameId then
                 (case aggregate_loop (playerPk info1) (unat (numPlayers s gameId)) 1
                         (playerPk info1 ! 0, playerPk info1 ! 1) of
                    Inl e \<Rightarrow> Inl e
                  | Inr agg \<Rightarrow>
                      Inr (initDeck gameId
                        (s1\<lparr>states := (states s)(gameId := ShufflingDeck),
                            playerIndexes := (playerIndexes s)(gameId := 0),
                            playerInfos := (playerInfos s)(gameId := info1\<lparr>aggregatedPk := agg\<rparr>)\<rparr>)))
               else Inr s1)"

definition prepareShuffleData ::
  "uint256 \<Rightarrow> uint256 list \<Rightarrow> uint256 list \<Rightarrow> uint256 \<times> uint256 \<Rightarrow> uint256 \<Rightarrow> store
    \<Rightarrow> uint256 list" where
  "prepareShuffleData nonce shuffledX0 shuffledX1 selector gameId s =
    (let input0 = (replicate 215 0)
           [0 := nonce,
            1 := fst (aggregatedPk (playerInfos s gameId)),
            2 := snd (aggregatedPk (playerInfos s gameId))];
         input1 = fold (\<lambda>i inp. inp
           [i + 3 := X0 (decks s gameId) ! i,
            i + 55 := X1 (decks s gameId) ! i,
            i + 107 := shuffledX0 ! i,
            i + 159 := shuffledX1 ! i]) [0..<52] input0
     in input1
           [211 := fst (Selector (decks s gameId)),
            212 := snd (Selector (decks s gameId)),
            213 := fst selector,
            214 := snd selector])"

definition updateDeck ::
  "uint256 list \<Rightarrow> uint256 list \<Rightarrow> uint256 \<times> uint256 \<Rightarrow> uint256 \<Rightarrow> store \<Rightarrow> store" where
  "updateDeck shuffledX0 shuffledX1 selector gameId s =
    (let d = fold (\<lambda>i d. d\<lparr>X0 := (X0 d)[i := shuffledX0 ! i],
                              X1 := (X1 d)[i := shuffledX1 ! i]\<rparr>) [0..<52] (decks s gameId)
     in s\<lparr>decks := (decks s)(gameId := d\<lparr>Selector := selector\<rparr>)\<rparr>)"

text \<open>
  \<open>shuffle\<close>: the read \<open>playerAddr[playerIndexes[gameId]]\<close> is bounds-checked and
  \<open>playerIndexes[gameId] += 1\<close> is checked arithmetic.
\<close>

definition shuffle ::
  "address \<Rightarrow> address \<Rightarrow> uint256 list \<Rightarrow> uint256 \<Rightarrow> uint256 list \<Rightarrow> uint256 list
    \<Rightarrow> uint256 \<times> uint256 \<Rightarrow> uint256 \<Rightarrow> store \<Rightarrow> error + store" where
  "shuffle msg_sender permanentAccount zkproof nonce shuffledX0 shuffledX1 selector gameId s =
    (if gameContract s \<noteq> msg_sender then Inl NotGameContract
     else if states s gameId \<noteq> ShufflingDeck then Inl InvalidState
     else if \<not> unat (playerIndexes s gameId) < length (playerAddr (playerInfos s gameId))
       then Inl Panic
     else if permanentAccount \<noteq>
         playerAddr (playerInfos s gameId) ! unat (playerIndexes s gameId)
       then Inl NotYourTurn
     else if \<not> shuffleEncryptVerifier s zkproof
         (prepareShuffleData nonce shuffledX0 shuffledX1 selector gameId s)
       then Inl ProofFailed
     else
       let s1 = updateDeck shuffledX0 shuffledX1 selector gameId s
       in if playerIndexes s1 gameId = - 1 then Inl Panic
          else
            let turn = playerIndexes s1 gameId + 1;
                s2 = s1\<lparr>playerIndexes := (playerIndexes s1)(gameId := turn)\<rparr>
            in if turn = numPlayers s2 gameId
               then Inr (s2\<lparr>states := (states s2)(gameId := DealingCard),
                            playerIndexes := (playerIndexes s2)(gameId := 0)\<rparr>)
               else Inr s2)"

definition decompressEC :: "uint256 \<Rightarrow> uint256 \<Rightarrow> uint256 \<Rightarrow> error + uint256" where
  "decompressEC x delta selector =
    (if \<not> delta \<le>
         10944121435919637611123202872628637544274182200208017171849102093287904247808
       then Inl IllFormedDelta
     else if \<not> isOnCurve x delta then Inl NotOnCurve
     else if \<not> (selector = 0 \<or> selector = 1) then Inl IllFormedSelector
     else if selector = 1 then Inr delta
     else Inr (Q - delta))"

text \<open>
  \<open>decompressCard\<close>: a shift of a \<open>uint256\<close> by 256 or more gives 0, as
  \<open>push_bit\<close> and \<open>drop_bit\<close> do on words; the reads of the deck at \<open>cardIdx\<close>
  are bounds-checked against 52.
\<close>

definition decompressCard ::
  "uint256 \<Rightarrow> uint256 \<times> uint256 \<Rightarrow> uint256 \<Rightarrow> store \<Rightarrow> error + uint256 \<times> uint256" where
  "decompressCard cardIdx delta gameId s =
    (let flag0 = drop_bit (unat cardIdx)
           (fst (Selector (decks s gameId)) AND push_bit (unat cardIdx) 1);
         flag1 = drop_bit (unat cardIdx)
           (snd (Selector (decks s gameId)) AND push_bit (unat cardIdx) 1)
     in if \<not> unat cardIdx < 52 then Inl Panic
        else
          (case decompressEC (X0 (decks s gameId) ! unat cardIdx) (fst delta) flag0 of
             Inl e \<Rightarrow> Inl e
           | Inr y0 \<Rightarrow>
               (case decompressEC (X1 (decks s gameId) ! unat cardIdx) (snd delta) flag1 of
                  Inl e \<Rightarrow> Inl e
                | Inr y1 \<Rightarrow> Inr (y0, y1))))"

text \<open>
  \<open>deal\<close>, in four parts: the block run when nobody has decrypted the card yet, the
  public signals handed to the decrypt verifier, the writes that follow the verification,
  and the function itself.
\<close>

definition deal_first ::
  "uint256 \<Rightarrow> uint256 \<times> uint256 \<Rightarrow> uint256 \<Rightarrow> store \<Rightarrow> error + store" where
  "deal_first cardIdx initDelta gameId s =
    (if deal_record (cardDeals s gameId) cardIdx = 0 then
       (case decompressCard cardIdx initDelta gameId s of
          Inl e \<Rightarrow> Inl e
        | Inr Y \<Rightarrow>
            Inr (s\<lparr>cardDeals := (cardDeals s)(gameId := (cardDeals s gameId)
              \<lparr>cards := (cards (cardDeals s gameId))(cardIdx :=
                 \<lparr>card_X0 = X0 (decks s gameId) ! unat cardIdx,
                  card_Y0 = fst Y,
                  card_X1 = X1 (decks s gameId) ! unat cardIdx,
                  card_Y1 = snd Y\<rparr>)\<rparr>)\<rparr>))
     else Inr s)"

definition deal_input ::
  "uint256 \<Rightarrow> uint256 \<Rightarrow> uint256 \<times> uint256 \<Rightarrow> uint256 \<Rightarrow> store \<Rightarrow> error + uint256 list" where
  "deal_input cardIdx curPlayerIdx decryptedCard gameId s =
    (let c = cards (cardDeals s gameId) cardIdx;
         pks = playerPk (playerInfos s gameId)
     in if \<not> (2 * unat curPlayerIdx + 1 < 2 ^ 256 \<and> 2 * unat curPlayerIdx + 1 < length pks)
        then Inl Panic
        else Inr [fst decryptedCard, snd decryptedCard,
                  card_X0 c, card_Y0 c, card_X1 c, card_Y1 c,
                  pks ! (2 * unat curPlayerIdx), pks ! (2 * unat curPlayerIdx + 1)])"

definition deal_write ::
  "uint256 \<Rightarrow> uint256 \<Rightarrow> uint256 \<times> uint256 \<Rightarrow> uint256 \<Rightarrow> store \<Rightarrow> store" where
  "deal_write cardIdx curPlayerIdx decryptedCard gameId s =
    (let cd = cardDeals s gameId;
         c = (cards cd cardIdx)\<lparr>card_X1 := fst decryptedCard,
                                card_Y1 := snd decryptedCard\<rparr>
     in s\<lparr>cardDeals := (cardDeals s)(gameId :=
          cd\<lparr>cards := (cards cd)(cardIdx := c),
             deal_record := (deal_record cd)(cardIdx :=
               deal_record cd cardIdx OR push_bit (unat curPlayerIdx) 1)\<rparr>)\<rparr>)"

definition deal ::
  "address \<Rightarrow> address \<Rightarrow> uint256 \<Rightarrow> uint256 \<Rightarrow> uint256 list \<Rightarrow> uint256 \<times> uint256
    \<Rightarrow> uint256 \<times> uint256 \<Rightarrow> uint256 \<Rightarrow> store \<Rightarrow> error + store" where
  "deal msg_sender permanentAccount cardIdx curPlayerIdx zkproof decryptedCard initDelta gameId s =
    (if states s gameId \<noteq> DealingCard then Inl InvalidState
     else if gameContract s \<noteq> msg_sender then Inl NotGameContract
     else if \<not> unat curPlayerIdx < length (playerAddr (playerInfos s gameId)) then Inl Panic
     else if playerAddr (playerInfos s gameId) ! unat curPlayerIdx \<noteq> permanentAccount
       then Inl NotYourTurn
     else if (deal_record (cardDeals s gameId) cardIdx AND push_bit (unat curPlayerIdx) 1) \<noteq> 0
       then Inl DoubleDeal
     else
       (case deal_first cardIdx initDelta gameId s of
          Inl e \<Rightarrow> Inl e
        | Inr s1 \<Rightarrow>
            (case deal_input cardIdx curPlayerIdx decryptedCard gameId s1 of
               Inl e \<Rightarrow> Inl e
             | Inr input \<Rightarrow>
                 if \<not> decryptVerifier s1 zkproof input then Inl ProofFailed
                 else Inr (deal_write cardIdx curPlayerIdx decryptedCard gameId s1))))"

function search_loop :: "uint256 list \<Rightarrow> uint256 \<Rightarrow> nat \<Rightarrow> uint256" where
  "search_loop tbl v i =
    (if i < 52 then (if tbl ! i = v then of_nat i else search_loop tbl v (i + 1))
     else INVALID_CARD_INDEX)"
  by pat_completeness auto
termination
  by (relation "measure (\<lambda>(tbl, v, i). 52 - i)") auto

declare search_loop.simps [simp del]

text \<open>
  \<open>search\<close>: \<open>(1 << numPlayers[gameId]) - 1\<close> is a checked subtraction, which
  panics when the shift gives 0.
\<close>

definition search :: "uint256 \<Rightarrow> uint256 \<Rightarrow> store \<Rightarrow> error + uint256" where
  "search cardIndex gameId s =
    (let full = push_bit (unat (numPlayers s gameId)) (1 :: uint256)
     in if full = 0 then Inl Panic
        else if deal_record (cardDeals s gameId) cardIndex \<noteq> full - 1
          then Inl CardNotFullyDecrypted
        else Inr (search_loop (X1 (initialDeck s))
                    (card_X1 (cards (cardDeals s gameId) cardIndex)) 0))"

text \<open>
  The constructor stores the two verifiers; \<open>Ownable\<close> makes the deployer the owner.
  Every other word of the storage is zero, and a game's state the first member of
  \<open>State\<close>.
\<close>

definition deploy ::
  "address \<Rightarrow> (uint256 list \<Rightarrow> uint256 list \<Rightarrow> bool) \<Rightarrow> (uint256 list \<Rightarrow> uint256 list \<Rightarrow> bool)
    \<Rightarrow> store" where
  "deploy msg_sender shuffleEncryptContract decryptContract =
    \<lparr>owner = msg_sender,
     shuffleEncryptVerifier = shuffleEncryptContract,
     decryptVerifier = decryptContract,
     gameContract = 0,
     numPlayers = (\<lambda>gameId. 0),
     decks = (\<lambda>gameId. zero_deck),
     initialDeck = zero_deck,
     cardDeals = (\<lambda>gameId.
       \<lparr>cards = (\<lambda>i. \<lparr>card_X0 = 0, card_Y0 = 0, card_X1 = 0, card_Y1 = 0\<rparr>),
        deal_record = (\<lambda>i. 0)\<rparr>),
     playerInfos = (\<lambda>gameId. \<lparr>playerAddr = [], playerPk = [], aggregatedPk = (0, 0)\<rparr>),
     playerIndexes = (\<lambda>gameId. 0),
     states = (\<lambda>gameId. Uncreated)\<rparr>"

section \<open>Steps of a game\<close>

text \<open>
  The three calls that move a game, as values, and the storage after the transaction of
  one of them.
\<close>

datatype operation =
    Register address address "uint256 \<times> uint256" uint256
  | Shuffle address address "uint256 list" uint256 "uint256 list" "uint256 list"
      "uint256 \<times> uint256" uint256
  | Deal address address uint256 uint256 "uint256 list" "uint256 \<times> uint256"
      "uint256 \<times> uint256" uint256

fun run :: "operation \<Rightarrow> store \<Rightarrow> error + store" where
  "run (Register msg_sender account pk gameId) = register msg_sender account pk gameId"
| "run (Shuffle msg_sender account zkproof nonce shuffledX0 shuffledX1 selector gameId) =
     shuffle msg_sender account zkproof nonce shuffledX0 shuffledX1 selector gameId"
| "run (Deal msg_sender account cardIdx curPlayerIdx zkproof decryptedCard initDelta gameId) =
     deal msg_sender account cardIdx curPlayerIdx zkproof decryptedCard initDelta gameId"

definition step :: "operation \<Rightarrow> store \<Rightarrow> store" where
  "step op s = snd (transact (run op) s)"

section \<open>Reachable storages\<close>

text \<open>
  The storages a deployed contract can be in: the constructor's, and those after a call
  that returns. The arrays that \<open>shuffle\<close> takes have 52 words by their type. The
  functions inherited from \<open>Ownable\<close> (\<open>transferOwnership\<close>,
  \<open>renounceOwnership\<close>) let the owner write \<open>owner\<close> and nothing else.
\<close>

inductive reachable :: "store \<Rightarrow> bool" where
  deployed:
    "reachable (deploy msg_sender shuffleEncryptContract decryptContract)"
| after_transferOwnership:
    "reachable s \<Longrightarrow> owner s = msg_sender \<Longrightarrow> reachable (s\<lparr>owner := newOwner\<rparr>)"
| after_setGameContract:
    "reachable s \<Longrightarrow> setGameContract msg_sender gameContract' s = Inr s' \<Longrightarrow> reachable s'"
| after_setGameSettings:
    "reachable s \<Longrightarrow> setGameSettings msg_sender numPlayers' gameId s = Inr s' \<Longrightarrow> reachable s'"
| after_register:
    "reachable s \<Longrightarrow> register msg_sender account pk gameId s = Inr s' \<Longrightarrow> reachable s'"
| after_shuffle:
    "reachable s \<Longrightarrow> length shuffledX0 = 52 \<Longrightarrow> length shuffledX1 = 52 \<Longrightarrow>
     shuffle msg_sender account zkproof nonce shuffledX0 shuffledX1 selector gameId s = Inr s' \<Longrightarrow>
     reachable s'"
| after_deal:
    "reachable s \<Longrightarrow>
     deal msg_sender account cardIdx curPlayerIdx zkproof decryptedCard initDelta gameId s
       = Inr s' \<Longrightarrow>
     reachable s'"

text \<open>
  What holds of a game in every reachable storage: its deck has 52 cards; \<open>playerPk\<close>
  holds two words for each registered account; during registration the turn index is at
  most the number of registered accounts; in the shuffle phase it is below
  \<open>numPlayers\<close>; and from the shuffle phase on \<open>numPlayers\<close> accounts at least
  are registered.
\<close>

definition game_inv :: "store \<Rightarrow> uint256 \<Rightarrow> bool" where
  "game_inv s g =
    (wf_deck (decks s g) \<and>
     length (playerPk (playerInfos s g)) = 2 * length (playerAddr (playerInfos s g)) \<and>
     (states s g = Registration \<longrightarrow>
        unat (playerIndexes s g) \<le> length (playerAddr (playerInfos s g))) \<and>
     (states s g = ShufflingDeck \<longrightarrow>
        unat (playerIndexes s g) < unat (numPlayers s g) \<and>
        unat (numPlayers s g) \<le> length (playerAddr (playerInfos s g))) \<and>
     (states s g = DealingCard \<longrightarrow>
        unat (numPlayers s g) \<le> length (playerAddr (playerInfos s g))))"

section \<open>Notions of the specification\<close>

text \<open>
  The specification speaks of points, of the sum of the public keys "via \<open>point_add\<close>,
  left-fold" with the identity \<open>(0, 0)\<close>, and of the literal table of the initial deck.
  A point is a pair of words; the public keys of a game are the pairs of consecutive words
  of \<open>playerPk\<close>. Here \<open>point_add\<close> is the library's \<open>pointAdd\<close> on points
  and \<open>point_sum\<close> its left fold, which is what \<open>register\<close> computes; the
  addition that the specification defines is \<open>spec_point_add\<close> below.
\<close>

definition point_add :: "uint256 \<times> uint256 \<Rightarrow> uint256 \<times> uint256 \<Rightarrow> uint256 \<times> uint256" where
  "point_add p q = pointAdd (fst p) (snd p) (fst q) (snd q)"

fun pk_pairs :: "uint256 list \<Rightarrow> (uint256 \<times> uint256) list" where
  "pk_pairs (x # y # rest) = (x, y) # pk_pairs rest"
| "pk_pairs rest = []"

definition point_sum :: "(uint256 \<times> uint256) list \<Rightarrow> uint256 \<times> uint256" where
  "point_sum ps = foldl point_add (0, 0) ps"

definition initial_X1 :: "uint256 list" where
  "initial_X1 =
    [5299619240641551281634865583518297030282874472190772894086521144482721001553,
     10031262171927540148667355526369034398030886437092045105752248699557385197826,
     2763488322167937039616325905516046217694264098671987087929565332380420898366,
     12252886604826192316928789929706397349846234911198931249025449955069330867144,
     11480966271046430430613841218147196773252373073876138147006741179837832100836,
     10483991165196995731760716870725509190315033255344071753161464961897900552628,
     20092560661213339045022877747484245238324772779820628739268223482659246842641,
     7582035475627193640797276505418002166691739036475590846121162698650004832581,
     4705897243203718691035604313913899717760209962238015362153877735592901317263,
     153240920024090527149238595127650983736082984617707450012091413752625486998,
     21605515851820432880964235241069234202284600780825340516808373216881770219365,
     13745444942333935831105476262872495530232646590228527111681360848540626474828,
     2645068156583085050795409844793952496341966587935372213947442411891928926825,
     6271573312546148160329629673815240458676221818610765478794395550121752710497,
     5958787406588418500595239545974275039455545059833263445973445578199987122248,
     20535751008137662458650892643857854177364093782887716696778361156345824450120,
     13563836234767289570509776815239138700227815546336980653685219619269419222465,
     4275129684793209100908617629232873490659349646726316579174764020734442970715,
     3580683066894261344342868744595701371983032382764484483883828834921866692509,
     18524760469487540272086982072248352918977679699605098074565248706868593560314,
     2154427024935329939176171989152776024124432978019445096214692532430076957041,
     1816241298058861911502288220962217652587610581887494755882131860274208736174,
     3639172054127297921474498814936207970655189294143443965871382146718894049550,
     18153584759852955321993060909315686508515263790058719796143606868729795593935,
     5176949692172562547530994773011440485202239217591064534480919561343940681001,
     11782448596564923920273443067279224661023825032511758933679941945201390953176,
     15115414180166661582657433168409397583403678199440414913931998371087153331677,
     16103312053732777198770385592612569441925896554538398460782269366791789650450,
     15634573854256261552526691928934487981718036067957117047207941471691510256035,
     13522014300368527857124448028007017231620180728959917395934408529470498717410,
     8849597151384761754662432349647792181832839105149516511288109154560963346222,
     17637772869292411350162712206160621391799277598172371975548617963057997942415,
     17865442088336706777255824955874511043418354156735081989302076911109600783679,
     9625567289404330771610619170659567384620399410607101202415837683782273761636,
     19373814649267709158886884269995697909895888146244662021464982318704042596931,
     7390138716282455928406931122298680964008854655730225979945397780138931089133,
     15569307001644077118414951158570484655582938985123060674676216828593082531204,
     5574029269435346901610253460831153754705524733306961972891617297155450271275,
     19413618616187267723274700502268217266196958882113475472385469940329254284367,
     4150841881477820062321117353525461148695942145446006780376429869296310489891,
     13006218950937475527552755960714370451146844872354184015492231133933291271706,
     2756817265436308373152970980469407708639447434621224209076647801443201833641,
     20753332016692298037070725519498706856018536650957009186217190802393636394798,
     18677353525295848510782679969108302659301585542508993181681541803916576179951,
     14183023947711168902945925525637889799656706942453336661550553836881551350544,
     9918129980499720075312297335985446199040718987227835782934042132813716932162,
     13387158171306569181335774436711419178064369889548869994718755907103728849628,
     6746289764529063117757275978151137209280572017166985325039920625187571527186,
     17386594504742987867709199123940407114622143705013582123660965311449576087929,
     11393356614877405198783044711998043631351342484007264997044462092350229714918,
     16257260290674454725761605597495173678803471245971702030005143987297548407836,
     3673082978401597800140653084819666873666278094336864183112751111018951461681]"

definition fixed_initial_deck :: Deck where
  "fixed_initial_deck =
    \<lparr>X0 = replicate 52 0, X1 = initial_X1,
     Selector = (4503599627370495, 3075935501959818)\<rparr>"





text \<open>
  Modelled from the spec: the specification's \<open>point_add\<close>, "identity \<open>(0,0)\<close>; for
  non-identity, \<open>x3 = (x1 y2 + y1 x2) / (1 + D x1 x2 y1 y2) mod Q\<close>,
  \<open>y3 = (y1 y2 - A x1 x2) / (1 - D x1 x2 y1 y2) mod Q\<close>", a division being the product
  with \<open>inverse(a) = a^(Q-2) mod Q\<close>. The formula is written out over the natural
  numbers, without the library's \<open>pointAdd\<close>; the sum of a list of keys is its left
  fold from the identity.
\<close>

definition spec_inverse :: "nat \<Rightarrow> nat" where
  "spec_inverse a = a ^ (unat Q - 2) mod unat Q"

definition spec_point_add ::
  "uint256 \<times> uint256 \<Rightarrow> uint256 \<times> uint256 \<Rightarrow> uint256 \<times> uint256" where
  "spec_point_add p1 p2 =
    (if p1 = (0, 0) then p2
     else if p2 = (0, 0) then p1
     else
       let q = unat Q;
           x1 = unat (fst p1); y1 = unat (snd p1);
           x2 = unat (fst p2); y2 = unat (snd p2);
           t = (unat D * x1 * x2 * y1 * y2) mod q;
           x3Num = (x1 * y2 + y1 * x2) mod q;
           y3Num = (y1 * y2 + (q - (unat A * x1 * x2) mod q)) mod q
       in (of_nat ((x3Num * spec_inverse ((1 + t) mod q)) mod q),
           of_nat ((y3Num * spec_inverse ((1 + (q - t)) mod q)) mod q)))"

definition spec_point_sum :: "(uint256 \<times> uint256) list \<Rightarrow> uint256 \<times> uint256" where
  "spec_point_sum ps = foldl spec_point_add (0, 0) ps"

section \<open>Example games\<close>

text \<open>
  Concrete storages on which the theorems below are instantiated. The example verifier
  accepts the proofs whose first word is 1. The owner is account 1, the game contract
  account 2, the players of game 1 are the accounts 10 and 11, both with the public key
  \<open>(0, 1)\<close>, a point of the curve.
\<close>

definition ex_verifier :: "uint256 list \<Rightarrow> uint256 list \<Rightarrow> bool" where
  "ex_verifier zkproof input = (case zkproof of [] \<Rightarrow> False | a # rest \<Rightarrow> a = 1)"

definition ex_created :: store where
  "ex_created = (deploy 1 ex_verifier ex_verifier)\<lparr>gameContract := 2\<rparr>"

text \<open>Game 1 after \<open>setGameSettings\<close> with two players: nobody has registered.\<close>

definition ex_registration :: store where
  "ex_registration = ex_created
    \<lparr>numPlayers := (numPlayers ex_created)(1 := 2),
     playerIndexes := (playerIndexes ex_created)(1 := 0),
     states := (states ex_created)(1 := Registration)\<rparr>"

text \<open>Game 1 after the first player has registered.\<close>

definition ex_registered1 :: store where
  "ex_registered1 = ex_registration
    \<lparr>playerInfos := (playerInfos ex_registration)(1 :=
       \<lparr>playerAddr = [10], playerPk = [0, 1], aggregatedPk = (0, 0)\<rparr>),
     playerIndexes := (playerIndexes ex_registration)(1 := 1)\<rparr>"

text \<open>Game 1 after the second player has registered: the shuffle phase, player 0 to move.\<close>

definition ex_shuffling :: store where
  "ex_shuffling = ex_registration
    \<lparr>decks := (decks ex_registration)(1 := fixed_initial_deck),
     playerInfos := (playerInfos ex_registration)(1 :=
       \<lparr>playerAddr = [10, 11], playerPk = [0, 1, 0, 1], aggregatedPk = (0, 1)\<rparr>),
     states := (states ex_registration)(1 := ShufflingDeck)\<rparr>"

text \<open>Game 1 after player 0 has submitted a deck of zeros: player 1 to move.\<close>

definition ex_shuffled1 :: store where
  "ex_shuffled1 = ex_shuffling
    \<lparr>decks := (decks ex_shuffling)(1 := zero_deck),
     playerIndexes := (playerIndexes ex_shuffling)(1 := 1)\<rparr>"

text \<open>Game 1 after player 1 has submitted a deck of zeros too: the dealing phase.\<close>

definition ex_dealing :: store where
  "ex_dealing = ex_shuffling
    \<lparr>decks := (decks ex_shuffling)(1 := zero_deck),
     playerIndexes := (playerIndexes ex_shuffling)(1 := 0),
     states := (states ex_shuffling)(1 := DealingCard)\<rparr>"

text \<open>
  Game 1 after player 0 has dealt card 0 with the share \<open>(5, 6)\<close> (and the deltas
  \<open>(1, 1)\<close>), and after player 1 has then dealt it with the share \<open>(0, 1)\<close>.
\<close>

definition ex_dealt1 :: store where
  "ex_dealt1 = ex_dealing
    \<lparr>cardDeals := (cardDeals ex_dealing)(1 :=
       (cardDeals ex_dealing 1)
         \<lparr>cards := (cards (cardDeals ex_dealing 1))(0 :=
            \<lparr>card_X0 = 0, card_Y0 = Q - 1, card_X1 = 5, card_Y1 = 6\<rparr>),
          deal_record := (deal_record (cardDeals ex_dealing 1))(0 := 1)\<rparr>)\<rparr>"

definition ex_dealt :: store where
  "ex_dealt = ex_dealing
    \<lparr>cardDeals := (cardDeals ex_dealing)(1 :=
       (cardDeals ex_dealing 1)
         \<lparr>cards := (cards (cardDeals ex_dealing 1))(0 :=
            \<lparr>card_X0 = 0, card_Y0 = Q - 1, card_X1 = 0, card_Y1 = 1\<rparr>),
          deal_record := (deal_record (cardDeals ex_dealing 1))(0 := 3)\<rparr>)\<rparr>"

text \<open>
  Game 0, the game whose \<open>initDeck\<close> writes \<open>initialDeck\<close>, with the single player
  10: after \<open>setGameSettings\<close>, after the player has registered, after the player has
  submitted a deck of zeros, and after the player has dealt card 0 with a share whose first
  coordinate is entry 2 of the literal table.
\<close>

definition ex0_registration :: store where
  "ex0_registration = ex_created
    \<lparr>numPlayers := (numPlayers ex_created)(0 := 1),
     playerIndexes := (playerIndexes ex_created)(0 := 0),
     states := (states ex_created)(0 := Registration)\<rparr>"

definition ex0_shuffling :: store where
  "ex0_shuffling = ex0_registration
    \<lparr>initialDeck := fixed_initial_deck,
     playerInfos := (playerInfos ex0_registration)(0 :=
       \<lparr>playerAddr = [10], playerPk = [0, 1], aggregatedPk = (0, 1)\<rparr>),
     states := (states ex0_registration)(0 := ShufflingDeck)\<rparr>"

definition ex0_dealing :: store where
  "ex0_dealing = ex0_shuffling
    \<lparr>decks := (decks ex0_shuffling)(0 := zero_deck),
     playerIndexes := (playerIndexes ex0_shuffling)(0 := 0),
     states := (states ex0_shuffling)(0 := DealingCard)\<rparr>"

definition ex0_dealt :: store where
  "ex0_dealt = ex0_dealing
    \<lparr>cardDeals := (cardDeals ex0_dealing)(0 :=
       (cardDeals ex0_dealing 0)
         \<lparr>cards := (cards (cardDeals ex0_dealing 0))(0 :=
            \<lparr>card_X0 = 0, card_Y0 = Q - 1,
             card_X1 = 2763488322167937039616325905516046217694264098671987087929565332380420898366,
             card_Y1 = 6\<rparr>),
          deal_record := (deal_record (cardDeals ex0_dealing 0))(0 := 1)\<rparr>)\<rparr>"

text \<open>
  Game 1 with other keys: player 10 registers the curve point \<open>(ex_sx, 0)\<close>, whose
  first coordinate is a square root of \<open>1 / A\<close>, and player 11 the curve point
  \<open>(0, Q - 1)\<close>.
\<close>

definition ex_sx :: uint256 where
  "ex_sx = 2957874849018779266517920829765869116077630550401372566248359756137677864698"

definition ex_slip_registered1 :: store where
  "ex_slip_registered1 = ex_registration
    \<lparr>playerInfos := (playerInfos ex_registration)(1 :=
       \<lparr>playerAddr = [10], playerPk = [ex_sx, 0], aggregatedPk = (0, 0)\<rparr>),
     playerIndexes := (playerIndexes ex_registration)(1 := 1)\<rparr>"

text \<open>
  Game 1 of the first run after player 1 has dealt card 0 with a share whose first
  coordinate is entry 2 of the literal table, instead of \<open>(0, 1)\<close>.
\<close>

definition ex_dealt_entry2 :: store where
  "ex_dealt_entry2 = ex_dealing
    \<lparr>cardDeals := (cardDeals ex_dealing)(1 :=
       (cardDeals ex_dealing 1)
         \<lparr>cards := (cards (cardDeals ex_dealing 1))(0 :=
            \<lparr>card_X0 = 0, card_Y0 = Q - 1,
             card_X1 = 2763488322167937039616325905516046217694264098671987087929565332380420898366,
             card_Y1 = 6\<rparr>),
          deal_record := (deal_record (cardDeals ex_dealing 1))(0 := 3)\<rparr>)\<rparr>"

section \<open>Arithmetic modulo \<open>Q\<close>\<close>

lemma unat_Q:
  "unat Q = 21888242871839275222246405745257275088548364400416034343698204186575808495617"
  by (simp add: Q_def)

lemma Q_gt_1: "1 < unat Q"
  by (simp add: unat_Q)

lemma Q_lt_2p255: "unat Q < 2 ^ 255"
  by (simp add: unat_Q)

lemma mod_Q_less: "n mod unat Q < 2 ^ LENGTH(256)"
proof -
  have "n mod unat Q < unat Q" using Q_gt_1 by simp
  also have "\<dots> < 2 ^ 255" by (rule Q_lt_2p255)
  also have "(2::nat) ^ 255 < 2 ^ LENGTH(256)" by simp
  finally show ?thesis .
qed

lemma unat_addmod: "unat (addmod a b Q) = (unat a + unat b) mod unat Q"
  unfolding addmod_def by (rule of_nat_inverse [OF refl]) (rule mod_Q_less)


lemma addmod_less: "addmod a b Q < Q"
  by (simp add: word_less_nat_alt unat_addmod) (use Q_gt_1 in simp)


text \<open>
  The checked operations of \<open>submod\<close> cannot trip on arguments below \<open>Q\<close>:
  \<open>a + Q\<close> does not overflow and the subtraction does not underflow.
\<close>

lemma submod_checked_arith:
  assumes "a < Q" "b < Q"
  shows "unat a + unat Q < 2 ^ 256 \<and> unat b \<le> unat a + unat Q \<and>
    (\<not> a \<le> b \<longrightarrow> unat b \<le> unat a)"
  using assms Q_lt_2p255 by (auto simp: word_less_nat_alt word_le_nat_alt)

lemma unat_submod:
  assumes "a < Q" "b < Q"
  shows "unat (submod a b Q) = (unat a + unat Q - unat b) mod unat Q"
proof (cases "a \<le> b")
  case True
  have lt: "unat a + unat Q < 2 ^ LENGTH(256)"
    using submod_checked_arith [OF assms] by simp
  have 1: "unat (a + Q) = unat a + unat Q"
    using lt by (simp add: unat_add_lem [THEN iffD1])
  have "b \<le> a + Q"
    using assms 1 by (simp add: word_le_nat_alt word_less_nat_alt)
  then have "unat (a + Q - b) = unat a + unat Q - unat b"
    by (simp add: unat_sub 1)
  with True show ?thesis
    by (simp add: submod_def unat_addmod)
next
  case False
  then have "b \<le> a" by simp
  then have 2: "unat (a - b) = unat a - unat b"
    by (simp add: unat_sub)
  have "unat b \<le> unat a" using \<open>b \<le> a\<close> by (simp add: word_le_nat_alt)
  then have "unat a + unat Q - unat b = (unat a - unat b) + unat Q"
    by simp
  then have "(unat a + unat Q - unat b) mod unat Q = (unat a - unat b) mod unat Q"
    by simp
  with False 2 show ?thesis
    by (simp add: submod_def unat_addmod)
qed

lemma mulmod_zero_left: "mulmod 0 b m = 0"
  by (simp add: mulmod_def)

lemma mulmod_zero_right: "mulmod a 0 m = 0"
  by (simp add: mulmod_def)

lemma addmod_zero_zero: "addmod 0 0 m = 0"
  by (simp add: addmod_def)

lemma addmod_zero_right: "a < Q \<Longrightarrow> addmod a 0 Q = a"
  by (simp add: addmod_def word_less_nat_alt)

lemma addmod_zero_left: "a < Q \<Longrightarrow> addmod 0 a Q = a"
  by (simp add: addmod_def word_less_nat_alt)

lemma one_less_Q: "1 < Q"
  using Q_gt_1 by (simp add: word_less_nat_alt)

lemma zero_less_Q: "0 < Q"
  using Q_gt_1 by (simp add: word_less_nat_alt)

lemma mulmod_one_left: "a < Q \<Longrightarrow> mulmod 1 a Q = a"
  by (simp add: mulmod_def word_less_nat_alt)

lemma submod_eq_0_iff:
  assumes "a < Q" "b < Q"
  shows "submod a b Q = 0 \<longleftrightarrow> a = b"
proof -
  have a: "unat a < unat Q" and b: "unat b < unat Q"
    using assms by (simp_all add: word_less_nat_alt)
  have "submod a b Q = 0 \<longleftrightarrow> unat (submod a b Q) = 0"
    by (simp add: unat_eq_0)
  also have "\<dots> \<longleftrightarrow> (unat a + unat Q - unat b) mod unat Q = 0"
    by (simp add: unat_submod [OF assms])
  also have "\<dots> \<longleftrightarrow> unat a = unat b"
  proof
    assume "(unat a + unat Q - unat b) mod unat Q = 0"
    then obtain k where k: "unat a + unat Q - unat b = unat Q * k"
      by (auto simp: mod_eq_0_iff_dvd)
    have "0 < unat a + unat Q - unat b" "unat a + unat Q - unat b < 2 * unat Q"
      using a b by simp_all
    with k have "0 < k" "unat Q * k < unat Q * 2" by (simp_all add: mult.commute)
    then have "k = 1" by simp
    with k show "unat a = unat b" using b by simp
  next
    assume "unat a = unat b"
    then show "(unat a + unat Q - unat b) mod unat Q = 0" by simp
  qed
  also have "\<dots> \<longleftrightarrow> a = b"
    by (simp add: word_unat_eq_iff)
  finally show ?thesis .
qed

lemma submod_zero_right: "a < Q \<Longrightarrow> submod a 0 Q = a"
proof -
  assume a: "a < Q"
  then have "unat (submod a 0 Q) = (unat a + unat Q - unat (0::uint256)) mod unat Q"
    by (intro unat_submod) (simp_all add: zero_less_Q)
  also have "\<dots> = unat a"
    using a by (simp add: word_less_nat_alt)
  finally show ?thesis by (simp add: word_unat_eq_iff)
qed


lemma inverse_fe_one: "inverse_fe 1 = 1"
  using Q_gt_1 by (simp add: inverse_fe_def expmod_def)




lemma half_Q:
  "(Q - 1) div 2 = 10944121435919637611123202872628637544274182200208017171849102093287904247808"
  by (simp add: Q_def)

lemma half_less_Q: "delta \<le> (Q - 1) div 2 \<Longrightarrow> delta < Q"
proof -
  assume "delta \<le> (Q - 1) div 2"
  moreover have "(Q - 1) div 2 < Q"
    unfolding half_Q by (simp add: Q_def)
  ultimately show ?thesis by simp
qed

lemma unat_Q_minus_1:
  "unat (Q - 1) = 21888242871839275222246405745257275088548364400416034343698204186575808495616"
  by (simp add: Q_def)

lemma mulmod_minus_1_sq: "mulmod (Q - 1) (Q - 1) Q = 1"
  by (simp add: mulmod_def unat_Q_minus_1 unat_Q)

lemma Q_not_1: "Q \<noteq> 1"
  by (simp add: Q_def)


section \<open>Points of the curve and their sum\<close>

lemma isOnCurve_iff:
  "isOnCurve x y \<longleftrightarrow>
    addmod (mulmod A (mulmod x x Q) Q) (mulmod y y Q) Q =
    addmod 1 (mulmod (mulmod D (mulmod x x Q) Q) (mulmod y y Q) Q) Q"
  unfolding isOnCurve_def Let_def
  by (rule submod_eq_0_iff) (rule addmod_less)+



lemma not_isOnCurve_0_0: "\<not> isOnCurve 0 0"
proof -
  have "isOnCurve 0 0 \<longleftrightarrow> submod 0 1 Q = 0"
    by (simp add: isOnCurve_def mulmod_zero_left mulmod_zero_right addmod_zero_zero
        addmod_zero_right one_less_Q)
  also have "\<dots> \<longleftrightarrow> (0::uint256) = 1"
    by (rule submod_eq_0_iff) (simp_all add: zero_less_Q one_less_Q)
  finally show ?thesis by simp
qed

lemma isOnCurve_0_1: "isOnCurve 0 1"
proof -
  have "isOnCurve 0 1 \<longleftrightarrow> submod 1 1 Q = 0"
    by (simp add: isOnCurve_def mulmod_zero_left mulmod_zero_right addmod_zero_zero
        addmod_zero_right addmod_zero_left mulmod_one_left one_less_Q)
  also have "\<dots> \<longleftrightarrow> (1::uint256) = 1"
    by (rule submod_eq_0_iff) (simp_all add: one_less_Q)
  finally show ?thesis by simp
qed

lemma pointAdd_formula:
  assumes "\<not> (x1 = 0 \<and> y1 = 0)" "\<not> (x2 = 0 \<and> y1 = 0)"
  shows "pointAdd x1 y1 x2 y2 =
    (mulmod (addmod (mulmod x1 y2 Q) (mulmod y1 x2 Q) Q)
       (inverse_fe (addmod 1 (mulmod D (mulmod (mulmod x1 x2 Q) (mulmod y1 y2 Q) Q) Q) Q)) Q,
     mulmod (submod (mulmod y1 y2 Q) (mulmod A (mulmod x1 x2 Q) Q) Q)
       (inverse_fe (submod 1 (mulmod D (mulmod (mulmod x1 x2 Q) (mulmod y1 y2 Q) Q) Q) Q)) Q)"
  unfolding pointAdd_def Let_def by (simp only: assms if_False)


lemma point_add_identity_left: "point_add (0, 0) p = p"
  by (simp add: point_add_def pointAdd_def)

lemma pointAdd_0_1_0_1: "pointAdd 0 1 0 1 = (0, 1)"
  by (simp add: pointAdd_formula mulmod_zero_left mulmod_zero_right addmod_zero_zero
      mulmod_one_left addmod_zero_right submod_zero_right inverse_fe_one one_less_Q)












section \<open>The loop of pointMul\<close>

lemma pointMul_zero: "pointMul x y 0 = (0, 0)"
  by (simp add: pointMul_def pointMul_loop.simps)








section \<open>decompressEC\<close>

lemma decompressEC_errors:
  "decompressEC x delta sel = Inl e \<Longrightarrow> e \<in> {IllFormedDelta, NotOnCurve, IllFormedSelector}"
  by (auto simp: decompressEC_def split: if_splits)

lemma decompressEC_0_1_0: "decompressEC 0 1 0 = Inr (Q - 1)"
proof -
  have "(1::uint256) \<le> (Q - 1) div 2"
    unfolding half_Q by simp
  then show ?thesis
    unfolding decompressEC_def half_Q [symmetric]
    by (simp add: isOnCurve_0_1)
qed

section \<open>initDeck and register\<close>

lemma replicate_update_same: "(replicate n z)[a := z] = replicate n z"
  by (induction n arbitrary: a) (simp_all split: nat.split)

lemma fold_zero_replicate:
  "fold (\<lambda>i xs. xs[i := z]) is (replicate n z) = replicate n z"
  by (induction "is") (simp_all add: replicate_update_same)

lemma update_chain_52:
  "(replicate 52 z)[0 := a0, 1 := a1, 2 := a2, 3 := a3, 4 := a4, 5 := a5, 6 := a6, 7 := a7, 8 := a8, 9 := a9, 10 := a10, 11 := a11, 12 := a12, 13 := a13, 14 := a14, 15 := a15, 16 := a16, 17 := a17, 18 := a18, 19 := a19, 20 := a20, 21 := a21, 22 := a22, 23 := a23, 24 := a24, 25 := a25, 26 := a26, 27 := a27, 28 := a28, 29 := a29, 30 := a30, 31 := a31, 32 := a32, 33 := a33, 34 := a34, 35 := a35, 36 := a36, 37 := a37, 38 := a38, 39 := a39, 40 := a40, 41 := a41, 42 := a42, 43 := a43, 44 := a44, 45 := a45, 46 := a46, 47 := a47, 48 := a48, 49 := a49, 50 := a50, 51 := a51] = [a0, a1, a2, a3, a4, a5, a6, a7, a8, a9, a10, a11, a12, a13, a14, a15, a16, a17, a18, a19, a20, a21, a22, a23, a24, a25, a26, a27, a28, a29, a30, a31, a32, a33, a34, a35, a36, a37, a38, a39, a40, a41, a42, a43, a44, a45, a46, a47, a48, a49, a50, a51]"
  by (simp add: numeral_eq_Suc)

lemma initDeck_built:
  "initDeck gameId s =
    (if gameId = 0 then s\<lparr>initialDeck := fixed_initial_deck\<rparr>
     else s\<lparr>decks := (decks s)(gameId := fixed_initial_deck)\<rparr>)"
  unfolding initDeck_def Let_def zero_deck_def fixed_initial_deck_def initial_X1_def
  by (simp only: Deck.simps update_chain_52 fold_zero_replicate)

lemma initDeck_deck:
  "gameId \<noteq> 0 \<Longrightarrow> decks (initDeck gameId s) gameId = fixed_initial_deck"
  by (simp add: initDeck_built)

lemma initDeck_initialDeck:
  "initialDeck (initDeck 0 s) = fixed_initial_deck"
  by (simp add: initDeck_built)

lemma initDeck_states: "states (initDeck gameId s) = states s"
  by (simp add: initDeck_def Let_def)

lemma pk_pairs_append:
  "even (length xs) \<Longrightarrow> pk_pairs (xs @ ys) = pk_pairs xs @ pk_pairs ys"
  by (induction xs rule: pk_pairs.induct) simp_all

lemma length_pk_pairs: "length (pk_pairs xs) = length xs div 2"
  by (induction xs rule: pk_pairs.induct) simp_all

lemma pk_pairs_nth:
  "2 * i + 1 < length xs \<Longrightarrow> pk_pairs xs ! i = (xs ! (2 * i), xs ! (2 * i + 1))"
proof (induction xs arbitrary: i rule: pk_pairs.induct)
  case (1 x y rest)
  show ?case
  proof (cases i)
    case 0
    then show ?thesis by simp
  next
    case (Suc k)
    with 1 show ?thesis by simp
  qed
qed simp_all

text \<open>The loop of \<open>register\<close> is the left fold over the keys from index \<open>i\<close> on.\<close>

lemma aggregate_loop_foldl:
  assumes "length pks = 2 * n" "2 * n < 2 ^ 256" "i \<le> n"
  shows "aggregate_loop pks n i agg = Inr (foldl point_add agg (drop i (pk_pairs pks)))"
  using assms(3)
proof (induction "n - i" arbitrary: i agg)
  case 0
  then have "i = n" by simp
  then show ?case
    using assms(1) by (subst aggregate_loop.simps) (simp add: length_pk_pairs)
next
  case (Suc k)
  then have lt: "i < n" by simp
  then have idx: "2 * i + 1 < length pks" "2 * i + 1 < 2 ^ 256"
    using assms(1,2) by simp_all
  have len: "i < length (pk_pairs pks)"
    using lt assms(1) by (simp add: length_pk_pairs)
  have d: "drop i (pk_pairs pks) = (pks ! (2 * i), pks ! (2 * i + 1)) # drop (Suc i) (pk_pairs pks)"
    using Cons_nth_drop_Suc [OF len] pk_pairs_nth [OF idx(1)] by simp
  have "aggregate_loop pks n i agg =
    aggregate_loop pks n (i + 1) (pointAdd (fst agg) (snd agg) (pks ! (2 * i)) (pks ! (2 * i + 1)))"
    using lt idx by (subst aggregate_loop.simps) simp
  also have "\<dots> = Inr (foldl point_add
      (pointAdd (fst agg) (snd agg) (pks ! (2 * i)) (pks ! (2 * i + 1)))
      (drop (i + 1) (pk_pairs pks)))"
    using Suc.hyps(2) lt by (intro Suc.hyps(1)) simp_all
  also have "\<dots> = Inr (foldl point_add agg (drop i (pk_pairs pks)))"
    unfolding d by (simp add: point_add_def)
  finally show ?case .
qed

lemma point_sum_foldl1:
  "ps \<noteq> [] \<Longrightarrow> point_sum ps = foldl point_add (hd ps) (tl ps)"
  by (cases ps) (simp_all add: point_sum_def point_add_identity_left)

lemma register_last:
  assumes caller: "gameContract s = msg_sender"
    and st: "states s gameId = Registration"
    and pk: "isOnCurve (fst pk) (snd pk)"
    and last: "length (playerAddr (playerInfos s gameId)) + 1 = unat (numPlayers s gameId)"
    and turn: "unat (playerIndexes s gameId) = length (playerAddr (playerInfos s gameId))"
    and pks: "length (playerPk (playerInfos s gameId)) =
      2 * length (playerAddr (playerInfos s gameId))"
    and fits: "length (playerPk (playerInfos s gameId)) + 2 < 2 ^ 256"
  shows "register msg_sender account pk gameId s =
    Inr (initDeck gameId
      (s\<lparr>states := (states s)(gameId := ShufflingDeck),
         playerIndexes := (playerIndexes s)(gameId := 0),
         playerInfos := (playerInfos s)(gameId :=
           (playerInfos s gameId)
             \<lparr>playerAddr := playerAddr (playerInfos s gameId) @ [account],
              playerPk := playerPk (playerInfos s gameId) @ [fst pk, snd pk],
              aggregatedPk :=
                point_sum (pk_pairs (playerPk (playerInfos s gameId)) @ [pk])\<rparr>)\<rparr>))"
proof -
  define info where "info = playerInfos s gameId"
  define n where "n = unat (numPlayers s gameId)"
  define pks1 where "pks1 = playerPk info @ [fst pk, snd pk]"
  have len1: "length pks1 = 2 * n"
    using last pks by (simp add: pks1_def n_def info_def)
  have n2: "2 * n < 2 ^ 256"
    using fits len1 by (simp add: pks1_def info_def)
  have n1: "1 \<le> n"
    using last by (simp add: n_def)
  have pairs: "pk_pairs pks1 = pk_pairs (playerPk info) @ [pk]"
    using pks by (simp add: pks1_def info_def pk_pairs_append)
  have ne: "pk_pairs pks1 \<noteq> []"
    by (simp add: pairs)
  have idx0: "2 * 0 + 1 < length pks1"
    using len1 n1 by simp
  have hd0: "(pks1 ! 0, pks1 ! 1) = hd (pk_pairs pks1)"
    using pk_pairs_nth [OF idx0] ne by (simp add: hd_conv_nth)
  have loop: "aggregate_loop pks1 n 1 (pks1 ! 0, pks1 ! 1) = Inr (point_sum (pk_pairs pks1))"
    unfolding aggregate_loop_foldl [OF len1 n2 n1] hd0 point_sum_foldl1 [OF ne]
    by (simp add: drop_Suc)
  have "unat (playerIndexes s gameId) + unat (1 :: uint256) < 2 ^ LENGTH(256)"
    using turn last unsigned_less [of "numPlayers s gameId", where ?'a = nat] by simp
  then have "unat (playerIndexes s gameId + 1) = unat (playerIndexes s gameId) + unat (1 :: uint256)"
    by (simp only: unat_add_lem)
  then have eq: "playerIndexes s gameId + 1 = numPlayers s gameId"
    using turn last by (simp add: word_unat_eq_iff)
  have nomax: "playerIndexes s gameId \<noteq> - 1"
  proof
    assume "playerIndexes s gameId = - 1"
    with eq have "numPlayers s gameId = 0" by simp
    with last show False by simp
  qed
  show ?thesis
    using caller st pk nomax eq loop
    by (simp add: register_def Let_def info_def [symmetric] pks1_def [symmetric]
        n_def [symmetric] pairs [symmetric])
qed

lemma register_states:
  assumes "register msg_sender account pk gameId s = Inr s'"
  shows "states s gameId = Registration \<and>
    (states s' = states s \<or> states s' = (states s)(gameId := ShufflingDeck))"
proof -
  have 1: "gameContract s = msg_sender"
    using assms by (simp add: register_def split: if_splits)
  have 2: "states s gameId = Registration"
    using assms 1 by (simp add: register_def split: if_splits)
  have 3: "isOnCurve (fst pk) (snd pk)"
    using assms 1 2 by (simp add: register_def split: if_splits)
  have 4: "playerIndexes s gameId \<noteq> - 1"
    using assms 1 2 3 by (simp add: register_def Let_def split: if_splits)
  have "states s' = states s \<or> states s' = (states s)(gameId := ShufflingDeck)"
    using assms 1 2 3 4
    by (auto simp: register_def Let_def initDeck_states split: if_splits sum.splits)
  with 2 show ?thesis by simp
qed

section \<open>updateDeck and shuffle\<close>

lemma take_update_step:
  assumes "n < length new" "n < length old"
  shows "(take n new @ drop n old)[n := new ! n] = take (Suc n) new @ drop (Suc n) old"
proof -
  have "drop n old = old ! n # drop (Suc n) old"
    using assms(2) by (simp add: Cons_nth_drop_Suc)
  moreover have "length (take n new) = n"
    using assms(1) by simp
  ultimately have "(take n new @ drop n old)[n := new ! n] = take n new @ new ! n # drop (Suc n) old"
    by (simp add: list_update_append)
  also have "\<dots> = take (Suc n) new @ drop (Suc n) old"
    using assms(1) by (simp add: take_Suc_conv_app_nth)
  finally show ?thesis .
qed

lemma updateDeck_fold:
  assumes "n \<le> length sx0" "n \<le> length (X0 d)" "n \<le> length sx1" "n \<le> length (X1 d)"
  shows "fold (\<lambda>i d. d\<lparr>X0 := (X0 d)[i := sx0 ! i], X1 := (X1 d)[i := sx1 ! i]\<rparr>) [0..<n] d =
    d\<lparr>X0 := take n sx0 @ drop n (X0 d), X1 := take n sx1 @ drop n (X1 d)\<rparr>"
  using assms
proof (induction n)
  case 0
  then show ?case by simp
next
  case (Suc n)
  then have "n < length sx0" "n < length (X0 d)" "n < length sx1" "n < length (X1 d)"
    by simp_all
  with Suc show ?case
    by (simp add: take_update_step)
qed

lemma updateDeck_deck:
  assumes "wf_deck (decks s gameId)" "length shuffledX0 = 52" "length shuffledX1 = 52"
  shows "decks (updateDeck shuffledX0 shuffledX1 selector gameId s) gameId =
    \<lparr>X0 = shuffledX0, X1 = shuffledX1, Selector = selector\<rparr>"
proof -
  have "fold (\<lambda>i d. d\<lparr>X0 := (X0 d)[i := shuffledX0 ! i], X1 := (X1 d)[i := shuffledX1 ! i]\<rparr>)
      [0..<52] (decks s gameId) =
    (decks s gameId)\<lparr>X0 := take 52 shuffledX0 @ drop 52 (X0 (decks s gameId)),
      X1 := take 52 shuffledX1 @ drop 52 (X1 (decks s gameId))\<rparr>"
    using assms by (intro updateDeck_fold) (simp_all add: wf_deck_def)
  then show ?thesis
    using assms by (simp add: updateDeck_def wf_deck_def)
qed

lemma updateDeck_eq:
  assumes "wf_deck (decks s gameId)" "length shuffledX0 = 52" "length shuffledX1 = 52"
  shows "updateDeck shuffledX0 shuffledX1 selector gameId s =
    s\<lparr>decks := (decks s)(gameId :=
      \<lparr>X0 = shuffledX0, X1 = shuffledX1, Selector = selector\<rparr>)\<rparr>"
proof -
  have "fold (\<lambda>i d. d\<lparr>X0 := (X0 d)[i := shuffledX0 ! i], X1 := (X1 d)[i := shuffledX1 ! i]\<rparr>)
      [0..<52] (decks s gameId) =
    (decks s gameId)\<lparr>X0 := take 52 shuffledX0 @ drop 52 (X0 (decks s gameId)),
      X1 := take 52 shuffledX1 @ drop 52 (X1 (decks s gameId))\<rparr>"
    using assms by (intro updateDeck_fold) (simp_all add: wf_deck_def)
  then have "(fold (\<lambda>i d. d\<lparr>X0 := (X0 d)[i := shuffledX0 ! i],
        X1 := (X1 d)[i := shuffledX1 ! i]\<rparr>) [0..<52] (decks s gameId))
      \<lparr>Selector := selector\<rparr> =
    \<lparr>X0 = shuffledX0, X1 = shuffledX1, Selector = selector\<rparr>"
    using assms by (simp add: wf_deck_def)
  then show ?thesis
    unfolding updateDeck_def Let_def by (simp only:)
qed

lemma updateDeck_other:
  "playerIndexes (updateDeck sx0 sx1 sel gameId s) = playerIndexes s"
  "numPlayers (updateDeck sx0 sx1 sel gameId s) = numPlayers s"
  "states (updateDeck sx0 sx1 sel gameId s) = states s"
  by (simp_all add: updateDeck_def Let_def)

lemma updateDeck_decks_upd:
  "decks ((updateDeck sx0 sx1 sel gameId s)\<lparr>playerIndexes := p, states := st\<rparr>) =
     decks (updateDeck sx0 sx1 sel gameId s)"
  "decks ((updateDeck sx0 sx1 sel gameId s)\<lparr>playerIndexes := p\<rparr>) =
     decks (updateDeck sx0 sx1 sel gameId s)"
  by simp_all

lemma wf_fixed_initial_deck: "wf_deck fixed_initial_deck"
  by (simp add: wf_deck_def fixed_initial_deck_def initial_X1_def)

lemma wf_zero_deck: "wf_deck zero_deck"
  by (simp add: wf_deck_def zero_deck_def)

lemma shuffle_guards:
  assumes "shuffle msg_sender account zkproof nonce sx0 sx1 sel gameId s = Inr s'"
  shows "gameContract s = msg_sender \<and> states s gameId = ShufflingDeck \<and>
    unat (playerIndexes s gameId) < length (playerAddr (playerInfos s gameId)) \<and>
    account = playerAddr (playerInfos s gameId) ! unat (playerIndexes s gameId) \<and>
    shuffleEncryptVerifier s zkproof (prepareShuffleData nonce sx0 sx1 sel gameId s) \<and>
    playerIndexes s gameId \<noteq> - 1"
proof -
  have 1: "gameContract s = msg_sender"
    using assms by (simp add: shuffle_def split: if_splits)
  have 2: "states s gameId = ShufflingDeck"
    using assms 1 by (simp add: shuffle_def split: if_splits)
  have 3: "unat (playerIndexes s gameId) < length (playerAddr (playerInfos s gameId))"
    using assms 1 2 by (simp add: shuffle_def split: if_splits)
  have 4: "account = playerAddr (playerInfos s gameId) ! unat (playerIndexes s gameId)"
    using assms 1 2 3 by (simp add: shuffle_def split: if_splits)
  have 5: "shuffleEncryptVerifier s zkproof (prepareShuffleData nonce sx0 sx1 sel gameId s)"
    using assms 1 2 3 4 by (simp add: shuffle_def split: if_splits)
  have 6: "playerIndexes s gameId \<noteq> - 1"
    using assms 1 2 3 4 5 by (simp add: shuffle_def Let_def updateDeck_other split: if_splits)
  from 1 2 3 4 5 6 show ?thesis by simp
qed

lemma shuffle_success:
  assumes "gameContract s = msg_sender" "states s gameId = ShufflingDeck"
    "unat (playerIndexes s gameId) < length (playerAddr (playerInfos s gameId))"
    "account = playerAddr (playerInfos s gameId) ! unat (playerIndexes s gameId)"
    "shuffleEncryptVerifier s zkproof (prepareShuffleData nonce sx0 sx1 sel gameId s)"
    "playerIndexes s gameId \<noteq> - 1"
  shows "shuffle msg_sender account zkproof nonce sx0 sx1 sel gameId s =
    Inr (if playerIndexes s gameId + 1 = numPlayers s gameId
         then (updateDeck sx0 sx1 sel gameId s)
                \<lparr>playerIndexes := (playerIndexes s)(gameId := 0),
                 states := (states s)(gameId := DealingCard)\<rparr>
         else (updateDeck sx0 sx1 sel gameId s)
                \<lparr>playerIndexes := (playerIndexes s)(gameId := playerIndexes s gameId + 1)\<rparr>)"
  using assms by (simp add: shuffle_def Let_def updateDeck_other)

lemma shuffle_ProofFailed:
  assumes "gameContract s = msg_sender" "states s gameId = ShufflingDeck"
    "unat (playerIndexes s gameId) < length (playerAddr (playerInfos s gameId))"
    "account = playerAddr (playerInfos s gameId) ! unat (playerIndexes s gameId)"
    "\<not> shuffleEncryptVerifier s zkproof (prepareShuffleData nonce sx0 sx1 sel gameId s)"
  shows "shuffle msg_sender account zkproof nonce sx0 sx1 sel gameId s = Inl ProofFailed"
  using assms by (simp add: shuffle_def)

lemma shuffle_states:
  assumes "shuffle msg_sender account zkproof nonce sx0 sx1 sel gameId s = Inr s'"
  shows "states s gameId = ShufflingDeck \<and>
    (states s' = states s \<or> states s' = (states s)(gameId := DealingCard))"
proof -
  note g = shuffle_guards [OF assms]
  from g have "shuffle msg_sender account zkproof nonce sx0 sx1 sel gameId s =
    Inr (if playerIndexes s gameId + 1 = numPlayers s gameId
         then (updateDeck sx0 sx1 sel gameId s)
                \<lparr>playerIndexes := (playerIndexes s)(gameId := 0),
                 states := (states s)(gameId := DealingCard)\<rparr>
         else (updateDeck sx0 sx1 sel gameId s)
                \<lparr>playerIndexes := (playerIndexes s)(gameId := playerIndexes s gameId + 1)\<rparr>)"
    by (intro shuffle_success) simp_all
  with assms have "states s' = states s \<or> states s' = (states s)(gameId := DealingCard)"
    by (auto simp: updateDeck_other split: if_splits)
  with g show ?thesis by simp
qed

section \<open>deal\<close>

lemma record_bit_test:
  "(w AND 2 ^ n) \<noteq> 0 \<longleftrightarrow> bit w n" for w :: uint256
  by (simp add: bit_iff_and_push_bit_not_eq_0)

lemma record_bit_set:
  "n < 256 \<Longrightarrow> bit (w OR 2 ^ n) n" for w :: uint256
  by (simp add: bit_or_iff bit_exp_iff)

lemma decompressCard_errors:
  "decompressCard cardIdx delta gameId s = Inl e \<Longrightarrow>
    e \<in> {Panic, IllFormedDelta, NotOnCurve, IllFormedSelector}"
  by (auto simp: decompressCard_def Let_def split: if_splits sum.splits
      dest: decompressEC_errors)

lemma deal_first_errors:
  "deal_first cardIdx initDelta gameId s = Inl e \<Longrightarrow>
    e \<in> {Panic, IllFormedDelta, NotOnCurve, IllFormedSelector}"
  by (auto simp: deal_first_def split: if_splits sum.splits dest: decompressCard_errors)

lemma deal_input_errors:
  "deal_input cardIdx curPlayerIdx decryptedCard gameId s = Inl e \<Longrightarrow> e = Panic"
  by (auto simp: deal_input_def Let_def split: if_splits)

text \<open>The first block of \<open>deal\<close> writes nothing but the card \<open>cardIdx\<close> of the game.\<close>

lemma deal_first_frame:
  assumes "deal_first cardIdx initDelta gameId s = Inr s1"
  shows "playerIndexes s1 = playerIndexes s" "states s1 = states s"
    "playerInfos s1 = playerInfos s" "decks s1 = decks s" "numPlayers s1 = numPlayers s"
    "decryptVerifier s1 = decryptVerifier s" "gameContract s1 = gameContract s"
    "deal_record (cardDeals s1 gameId) = deal_record (cardDeals s gameId)"
  using assms by (auto simp: deal_first_def split: if_splits sum.splits)

text \<open>\<open>deal\<close> once its four \<open>require\<close>s have passed.\<close>

lemma deal_unfold:
  assumes "states s gameId = DealingCard" "gameContract s = msg_sender"
    "unat curPlayerIdx < length (playerAddr (playerInfos s gameId))"
    "playerAddr (playerInfos s gameId) ! unat curPlayerIdx = account"
    "\<not> bit (deal_record (cardDeals s gameId) cardIdx) (unat curPlayerIdx)"
  shows "deal msg_sender account cardIdx curPlayerIdx zkproof decryptedCard initDelta gameId s =
    (case deal_first cardIdx initDelta gameId s of
       Inl e \<Rightarrow> Inl e
     | Inr s1 \<Rightarrow>
         (case deal_input cardIdx curPlayerIdx decryptedCard gameId s1 of
            Inl e \<Rightarrow> Inl e
          | Inr input \<Rightarrow>
              if \<not> decryptVerifier s1 zkproof input then Inl ProofFailed
              else Inr (deal_write cardIdx curPlayerIdx decryptedCard gameId s1)))"
  using assms by (simp add: deal_def record_bit_test)

lemma deal_write_frame:
  "deal_record (cardDeals (deal_write cardIdx curPlayerIdx decryptedCard gameId s) gameId) cardIdx
     = deal_record (cardDeals s gameId) cardIdx OR push_bit (unat curPlayerIdx) 1"
  "card_X1 (cards (cardDeals (deal_write cardIdx curPlayerIdx decryptedCard gameId s) gameId)
     cardIdx) = fst decryptedCard"
  "card_Y1 (cards (cardDeals (deal_write cardIdx curPlayerIdx decryptedCard gameId s) gameId)
     cardIdx) = snd decryptedCard"
  "playerIndexes (deal_write cardIdx curPlayerIdx decryptedCard gameId s) = playerIndexes s"
  "states (deal_write cardIdx curPlayerIdx decryptedCard gameId s) = states s"
  by (simp_all add: deal_write_def Let_def)

lemma deal_DoubleDeal:
  assumes "states s gameId = DealingCard" "gameContract s = msg_sender"
    "unat curPlayerIdx < length (playerAddr (playerInfos s gameId))"
    "playerAddr (playerInfos s gameId) ! unat curPlayerIdx = account"
  shows "deal msg_sender account cardIdx curPlayerIdx zkproof decryptedCard initDelta gameId s =
      Inl DoubleDeal \<longleftrightarrow>
    bit (deal_record (cardDeals s gameId) cardIdx) (unat curPlayerIdx)"
proof (cases "bit (deal_record (cardDeals s gameId) cardIdx) (unat curPlayerIdx)")
  case True
  with assms show ?thesis by (simp add: deal_def record_bit_test)
next
  case False
  have "deal msg_sender account cardIdx curPlayerIdx zkproof decryptedCard initDelta gameId s
    \<noteq> Inl DoubleDeal"
    unfolding deal_unfold [OF assms False]
    by (auto split: sum.splits dest: deal_first_errors deal_input_errors)
  with False show ?thesis by simp
qed

lemma deal_result:
  assumes "states s gameId = DealingCard" "gameContract s = msg_sender"
    "unat curPlayerIdx < length (playerAddr (playerInfos s gameId))"
    "playerAddr (playerInfos s gameId) ! unat curPlayerIdx = account"
    and r: "deal msg_sender account cardIdx curPlayerIdx zkproof decryptedCard initDelta gameId s
      = Inr s'"
  shows "deal_record (cardDeals s' gameId) cardIdx =
      deal_record (cardDeals s gameId) cardIdx OR push_bit (unat curPlayerIdx) 1"
    "card_X1 (cards (cardDeals s' gameId) cardIdx) = fst decryptedCard"
    "card_Y1 (cards (cardDeals s' gameId) cardIdx) = snd decryptedCard"
    "playerIndexes s' = playerIndexes s" "states s' = states s"
proof -
  have nb: "\<not> bit (deal_record (cardDeals s gameId) cardIdx) (unat curPlayerIdx)"
    using deal_DoubleDeal [OF assms(1-4), of cardIdx zkproof decryptedCard initDelta] r by simp
  from r obtain s1 where s1: "deal_first cardIdx initDelta gameId s = Inr s1"
    and s': "s' = deal_write cardIdx curPlayerIdx decryptedCard gameId s1"
    unfolding deal_unfold [OF assms(1-4) nb]
    by (auto split: sum.splits if_splits)
  note f = deal_first_frame [OF s1]
  show "deal_record (cardDeals s' gameId) cardIdx =
      deal_record (cardDeals s gameId) cardIdx OR push_bit (unat curPlayerIdx) 1"
    unfolding s' deal_write_frame by (simp add: f)
  show "card_X1 (cards (cardDeals s' gameId) cardIdx) = fst decryptedCard"
    unfolding s' by (rule deal_write_frame)
  show "card_Y1 (cards (cardDeals s' gameId) cardIdx) = snd decryptedCard"
    unfolding s' by (rule deal_write_frame)
  show "playerIndexes s' = playerIndexes s"
    unfolding s' deal_write_frame by (rule f)
  show "states s' = states s"
    unfolding s' deal_write_frame by (rule f)
qed

lemma deal_ProofFailed:
  assumes "states s gameId = DealingCard" "gameContract s = msg_sender"
    "unat curPlayerIdx < length (playerAddr (playerInfos s gameId))"
    "playerAddr (playerInfos s gameId) ! unat curPlayerIdx = account"
    "\<not> bit (deal_record (cardDeals s gameId) cardIdx) (unat curPlayerIdx)"
    "deal_first cardIdx initDelta gameId s = Inr s1"
    "deal_input cardIdx curPlayerIdx decryptedCard gameId s1 = Inr input"
    "\<not> decryptVerifier s zkproof input"
  shows "deal msg_sender account cardIdx curPlayerIdx zkproof decryptedCard initDelta gameId s =
    Inl ProofFailed"
  unfolding deal_unfold [OF assms(1-5)]
  using assms(7,8) by (simp add: assms(6) deal_first_frame(6) [OF assms(6)])

lemma deal_guards:
  assumes "deal msg_sender account cardIdx curPlayerIdx zkproof decryptedCard initDelta gameId s
    = Inr s'"
  shows "states s gameId = DealingCard" "gameContract s = msg_sender"
    "unat curPlayerIdx < length (playerAddr (playerInfos s gameId))"
    "playerAddr (playerInfos s gameId) ! unat curPlayerIdx = account"
proof -
  show 1: "states s gameId = DealingCard"
    using assms by (simp add: deal_def split: if_splits)
  show 2: "gameContract s = msg_sender"
    using assms 1 by (simp add: deal_def split: if_splits)
  show 3: "unat curPlayerIdx < length (playerAddr (playerInfos s gameId))"
    using assms 1 2 by (simp add: deal_def split: if_splits)
  show "playerAddr (playerInfos s gameId) ! unat curPlayerIdx = account"
    using assms 1 2 3 by (simp add: deal_def split: if_splits)
qed

lemma deal_states:
  assumes "deal msg_sender account cardIdx curPlayerIdx zkproof decryptedCard initDelta gameId s
    = Inr s'"
  shows "states s gameId = DealingCard \<and> states s' = states s"
  using deal_guards [OF assms] deal_result(5) [OF deal_guards [OF assms] assms] by simp

section \<open>Transactions and steps\<close>

lemma transact_Inl: "f s = Inl e \<Longrightarrow> transact f s = (Some e, s)"
  by (simp add: transact_def)

lemma run_states:
  assumes "run op s = Inr s'"
  shows "states s' g = states s g \<or>
    (states s g \<in> {Registration, ShufflingDeck} \<and> states s' g \<in> {ShufflingDeck, DealingCard})"
proof (cases op)
  case (Register m a pk gameId)
  with assms register_states [of m a pk gameId s s'] show ?thesis by (auto split: if_splits)
next
  case (Shuffle m a p n x0 x1 sel gameId)
  with assms shuffle_states [of m a p n x0 x1 sel gameId s s'] show ?thesis by (auto split: if_splits)
next
  case (Deal m a i j p dc d gameId)
  with assms deal_states [of m a i j p dc d gameId s s'] show ?thesis by auto
qed

section \<open>search\<close>

lemma search_loop_found:
  "i \<le> k \<Longrightarrow> k < 52 \<Longrightarrow> tbl ! k = v \<Longrightarrow> (\<forall>j. i \<le> j \<and> j < k \<longrightarrow> tbl ! j \<noteq> v)
    \<Longrightarrow> search_loop tbl v i = of_nat k"
proof (induction tbl v i rule: search_loop.induct)
  case (1 tbl v i)
  show ?case
  proof (cases "tbl ! i = v")
    case True
    with 1 have "i = k" by (metis le_neq_implies_less order_refl)
    with True 1 show ?thesis by (simp add: search_loop.simps)
  next
    case False
    with 1 have "i \<noteq> k" by auto
    with 1 have "Suc i \<le> k" by simp
    with 1 False have "search_loop tbl v (i + 1) = of_nat k" by simp
    with 1 False show ?thesis by (subst search_loop.simps) simp
  qed
qed

lemma search_loop_none:
  "(\<forall>j. i \<le> j \<and> j < 52 \<longrightarrow> tbl ! j \<noteq> v) \<Longrightarrow> search_loop tbl v i = INVALID_CARD_INDEX"
proof (induction tbl v i rule: search_loop.induct)
  case (1 tbl v i)
  show ?case
  proof (cases "i < 52")
    case True
    with 1 have "tbl ! i \<noteq> v" by simp
    moreover from this True 1 have "search_loop tbl v (i + 1) = INVALID_CARD_INDEX" by simp
    ultimately show ?thesis using True by (subst search_loop.simps) simp
  next
    case False
    then show ?thesis by (subst search_loop.simps) simp
  qed
qed

lemma search_loop_spec:
  "(\<exists>i<52. tbl ! i = v \<and> (\<forall>k<i. tbl ! k \<noteq> v) \<and> search_loop tbl v 0 = of_nat i) \<or>
   ((\<forall>i<52. tbl ! i \<noteq> v) \<and> search_loop tbl v 0 = INVALID_CARD_INDEX)"
proof (cases "\<exists>i<52. tbl ! i = v")
  case True
  define m where "m = (LEAST i. i < 52 \<and> tbl ! i = v)"
  from True obtain i0 where "i0 < 52 \<and> tbl ! i0 = v" by blast
  then have m: "m < 52 \<and> tbl ! m = v"
    unfolding m_def by (rule LeastI)
  have least: "\<forall>k<m. tbl ! k \<noteq> v"
  proof (intro allI impI notI)
    fix k assume "k < m" "tbl ! k = v"
    with m have "k < 52 \<and> tbl ! k = v" by simp
    then have "m \<le> k" unfolding m_def by (rule Least_le)
    with \<open>k < m\<close> show False by simp
  qed
  with m have "search_loop tbl v 0 = of_nat m"
    by (intro search_loop_found) auto
  with m least show ?thesis by blast
next
  case False
  then have "search_loop tbl v 0 = INVALID_CARD_INDEX"
    by (intro search_loop_none) auto
  with False show ?thesis by blast
qed

lemma push_bit_1_nonzero: "n < 256 \<Longrightarrow> push_bit n (1 :: uint256) \<noteq> 0"
  by simp

lemma search_panic:
  "\<not> unat (numPlayers s gameId) < 256 \<Longrightarrow> search cardIndex gameId s = Inl Panic"
  by (simp add: search_def Let_def)

section \<open>The invariant of a game\<close>

lemma unat_Suc_word:
  fixes i n :: uint256
  assumes "unat i < unat n"
  shows "unat (i + 1) = unat i + 1"
proof -
  have "unat n < 2 ^ LENGTH(256)"
    by (rule unsigned_less)
  with assms have "unat i + unat (1 :: uint256) < 2 ^ LENGTH(256)"
    by simp
  then have "unat (i + 1) = unat i + unat (1 :: uint256)"
    by (simp only: unat_add_lem)
  then show ?thesis by simp
qed

lemma unat_Suc_not_max:
  fixes i :: uint256
  assumes "i \<noteq> - 1"
  shows "unat (i + 1) = unat i + 1"
proof -
  have ne: "i + 1 \<noteq> 0"
    using assms by (simp add: eq_neg_iff_add_eq_0 [symmetric])
  have "unat i + 1 \<noteq> 2 ^ LENGTH(256)"
  proof
    assume "unat i + 1 = 2 ^ LENGTH(256)"
    then have "(of_nat (unat i + 1) :: uint256) = of_nat (2 ^ LENGTH(256))"
      by (simp only:)
    then have "i + 1 = 0"
      by simp
    with ne show False by simp
  qed
  moreover have "unat i < 2 ^ LENGTH(256)"
    by (rule unsigned_less)
  ultimately have "unat i + unat (1 :: uint256) < 2 ^ LENGTH(256)"
    by simp
  then have "unat (i + 1) = unat i + unat (1 :: uint256)"
    by (simp only: unat_add_lem)
  then show ?thesis by simp
qed

lemma register_result:
  assumes "register msg_sender account pk gameId s = Inr s'"
  shows "states s gameId = Registration \<and> playerIndexes s gameId \<noteq> - 1 \<and>
    (s' = s\<lparr>playerInfos := (playerInfos s)(gameId := (playerInfos s gameId)
              \<lparr>playerAddr := playerAddr (playerInfos s gameId) @ [account],
               playerPk := playerPk (playerInfos s gameId) @ [fst pk, snd pk]\<rparr>),
            playerIndexes := (playerIndexes s)(gameId := playerIndexes s gameId + 1)\<rparr> \<or>
     playerIndexes s gameId + 1 = numPlayers s gameId \<and>
     (\<exists>agg. s' = initDeck gameId
        (s\<lparr>states := (states s)(gameId := ShufflingDeck),
           playerIndexes := (playerIndexes s)(gameId := 0),
           playerInfos := (playerInfos s)(gameId := (playerInfos s gameId)
              \<lparr>playerAddr := playerAddr (playerInfos s gameId) @ [account],
               playerPk := playerPk (playerInfos s gameId) @ [fst pk, snd pk],
               aggregatedPk := agg\<rparr>)\<rparr>)))"
proof -
  have 1: "gameContract s = msg_sender"
    using assms by (simp add: register_def split: if_splits)
  have 2: "states s gameId = Registration"
    using assms 1 by (simp add: register_def split: if_splits)
  have 3: "isOnCurve (fst pk) (snd pk)"
    using assms 1 2 by (simp add: register_def split: if_splits)
  have 4: "playerIndexes s gameId \<noteq> - 1"
    using assms 1 2 3 by (simp add: register_def Let_def split: if_splits)
  show ?thesis
  proof (cases "playerIndexes s gameId + 1 = numPlayers s gameId")
    case False
    with assms 1 2 3 4 show ?thesis
      by (simp add: register_def Let_def)
  next
    case True
    with assms 1 2 3 4 show ?thesis
      by (auto simp: register_def Let_def split: sum.splits)
  qed
qed

lemma game_inv_deploy: "game_inv (deploy msg_sender v1 v2) g"
  by (simp add: game_inv_def deploy_def wf_zero_deck)

lemma game_inv_setGameContract:
  "game_inv s g \<Longrightarrow> setGameContract msg_sender c s = Inr s' \<Longrightarrow> game_inv s' g"
  by (auto simp: game_inv_def setGameContract_def split: if_splits)

lemma game_inv_setGameSettings:
  "game_inv s g \<Longrightarrow> setGameSettings msg_sender n gameId s = Inr s' \<Longrightarrow> game_inv s' g"
  by (auto simp: game_inv_def setGameSettings_def split: if_splits)

lemma game_inv_register:
  assumes inv: "game_inv s g" and r: "register msg_sender account pk gameId s = Inr s'"
  shows "game_inv s' g"
proof -
  note res = register_result [OF r]
  from res have st: "states s gameId = Registration" and nomax: "playerIndexes s gameId \<noteq> - 1"
    by simp_all
  have le: "unat (playerIndexes s gameId) \<le> length (playerAddr (playerInfos s gameId))"
    if "g = gameId"
    using inv st that by (simp add: game_inv_def)
  have suc: "unat (playerIndexes s gameId + 1) = unat (playerIndexes s gameId) + 1"
    using nomax by (rule unat_Suc_not_max)
  from res consider
    (more) "s' = s\<lparr>playerInfos := (playerInfos s)(gameId := (playerInfos s gameId)
              \<lparr>playerAddr := playerAddr (playerInfos s gameId) @ [account],
               playerPk := playerPk (playerInfos s gameId) @ [fst pk, snd pk]\<rparr>),
            playerIndexes := (playerIndexes s)(gameId := playerIndexes s gameId + 1)\<rparr>"
  | (last) agg where "playerIndexes s gameId + 1 = numPlayers s gameId"
      "s' = initDeck gameId
        (s\<lparr>states := (states s)(gameId := ShufflingDeck),
           playerIndexes := (playerIndexes s)(gameId := 0),
           playerInfos := (playerInfos s)(gameId := (playerInfos s gameId)
              \<lparr>playerAddr := playerAddr (playerInfos s gameId) @ [account],
               playerPk := playerPk (playerInfos s gameId) @ [fst pk, snd pk],
               aggregatedPk := agg\<rparr>)\<rparr>)"
    by blast
  then show ?thesis
  proof cases
    case more
    show ?thesis
    proof (cases "g = gameId")
      case True
      with inv st le suc show ?thesis
        unfolding more by (simp add: game_inv_def)
    next
      case False
      with inv show ?thesis
        unfolding more by (simp add: game_inv_def)
    qed
  next
    case last
    have n: "unat (numPlayers s gameId) = unat (playerIndexes s gameId) + 1"
      using suc last(1) by simp
    show ?thesis
    proof (cases "g = gameId")
      case True
      with inv st le n show ?thesis
        unfolding last(2) initDeck_built
        by (auto simp: game_inv_def wf_fixed_initial_deck)
    next
      case False
      with inv show ?thesis
        unfolding last(2) initDeck_built by (auto simp: game_inv_def)
    qed
  qed
qed

lemma game_inv_shuffle:
  assumes inv: "game_inv s g" and len: "length sx0 = 52" "length sx1 = 52"
    and r: "shuffle msg_sender account zkproof nonce sx0 sx1 sel gameId s = Inr s'"
  shows "game_inv s' g"
proof -
  note gd = shuffle_guards [OF r]
  have st: "states s gameId = ShufflingDeck"
    using gd by simp
  have "shuffle msg_sender account zkproof nonce sx0 sx1 sel gameId s =
    Inr (if playerIndexes s gameId + 1 = numPlayers s gameId
         then (updateDeck sx0 sx1 sel gameId s)
                \<lparr>playerIndexes := (playerIndexes s)(gameId := 0),
                 states := (states s)(gameId := DealingCard)\<rparr>
         else (updateDeck sx0 sx1 sel gameId s)
                \<lparr>playerIndexes := (playerIndexes s)(gameId := playerIndexes s gameId + 1)\<rparr>)"
    using gd by (intro shuffle_success) simp_all
  with r have s': "s' = (if playerIndexes s gameId + 1 = numPlayers s gameId
         then (updateDeck sx0 sx1 sel gameId s)
                \<lparr>playerIndexes := (playerIndexes s)(gameId := 0),
                 states := (states s)(gameId := DealingCard)\<rparr>
         else (updateDeck sx0 sx1 sel gameId s)
                \<lparr>playerIndexes := (playerIndexes s)(gameId := playerIndexes s gameId + 1)\<rparr>)"
    by simp
  show ?thesis
  proof (cases "g = gameId")
    case False
    with inv show ?thesis
      unfolding s' by (simp add: game_inv_def updateDeck_def Let_def)
  next
    case True
    with inv st have wf: "wf_deck (decks s gameId)"
      and lt: "unat (playerIndexes s gameId) < unat (numPlayers s gameId)"
      and reg: "unat (numPlayers s gameId) \<le> length (playerAddr (playerInfos s gameId))"
      and pks: "length (playerPk (playerInfos s gameId)) =
        2 * length (playerAddr (playerInfos s gameId))"
      by (simp_all add: game_inv_def)
    note upd = updateDeck_eq [OF wf len, of sel]
    have suc: "unat (playerIndexes s gameId + 1) = unat (playerIndexes s gameId) + 1"
      using lt by (rule unat_Suc_word)
    have next_lt: "unat (playerIndexes s gameId + 1) < unat (numPlayers s gameId)"
      if "playerIndexes s gameId + 1 \<noteq> numPlayers s gameId"
    proof -
      from that have "unat (playerIndexes s gameId + 1) \<noteq> unat (numPlayers s gameId)"
        by (simp add: word_unat_eq_iff)
      with suc lt show ?thesis by simp
    qed
    from True st reg pks next_lt len show ?thesis
      unfolding s' upd by (simp add: game_inv_def wf_deck_def)
  qed
qed

lemma deal_frame:
  assumes "deal msg_sender account cardIdx curPlayerIdx zkproof decryptedCard initDelta gameId s
    = Inr s'"
  shows "playerIndexes s' = playerIndexes s" "states s' = states s"
    "playerInfos s' = playerInfos s" "decks s' = decks s" "numPlayers s' = numPlayers s"
proof -
  note gd = deal_guards [OF assms]
  have nb: "\<not> bit (deal_record (cardDeals s gameId) cardIdx) (unat curPlayerIdx)"
    using deal_DoubleDeal [OF gd, of cardIdx zkproof decryptedCard initDelta] assms by simp
  from assms obtain s1 where s1: "deal_first cardIdx initDelta gameId s = Inr s1"
    and s': "s' = deal_write cardIdx curPlayerIdx decryptedCard gameId s1"
    unfolding deal_unfold [OF gd nb]
    by (auto split: sum.splits if_splits)
  note f = deal_first_frame [OF s1]
  show "playerIndexes s' = playerIndexes s" "states s' = states s"
    "playerInfos s' = playerInfos s" "decks s' = decks s" "numPlayers s' = numPlayers s"
    unfolding s' by (simp_all add: deal_write_def Let_def f)
qed

lemma game_inv_deal:
  assumes "game_inv s g"
    and "deal msg_sender account cardIdx curPlayerIdx zkproof decryptedCard initDelta gameId s
      = Inr s'"
  shows "game_inv s' g"
  using assms(1) by (simp add: game_inv_def deal_frame [OF assms(2)])

lemma reachable_game_inv: "reachable s \<Longrightarrow> game_inv s g"
proof (induction rule: reachable.induct)
  case (deployed msg_sender shuffleEncryptContract decryptContract)
  show ?case by (rule game_inv_deploy)
next
  case (after_transferOwnership s msg_sender newOwner)
  then show ?case by (simp add: game_inv_def)
next
  case (after_setGameContract s msg_sender gameContract' s')
  then show ?case by (blast intro: game_inv_setGameContract)
next
  case (after_setGameSettings s msg_sender numPlayers' gameId s')
  then show ?case by (blast intro: game_inv_setGameSettings)
next
  case (after_register s msg_sender account pk gameId s')
  then show ?case by (blast intro: game_inv_register)
next
  case (after_shuffle s shuffledX0 shuffledX1 msg_sender account zkproof nonce selector gameId s')
  then show ?case by (blast intro: game_inv_shuffle)
next
  case (after_deal s msg_sender account cardIdx curPlayerIdx zkproof decryptedCard initDelta gameId s')
  then show ?case by (blast intro: game_inv_deal)
qed

lemma reachable_turn:
  assumes "reachable s" "states s gameId = ShufflingDeck"
  shows
    "unat (playerIndexes s gameId) < unat (numPlayers s gameId)"
    "unat (playerIndexes s gameId) < length (playerAddr (playerInfos s gameId))"
    "playerIndexes s gameId \<noteq> - 1"
proof -
  note inv = reachable_game_inv [OF assms(1), of gameId]
  show lt: "unat (playerIndexes s gameId) < unat (numPlayers s gameId)"
    using inv assms(2) by (simp add: game_inv_def)
  show "unat (playerIndexes s gameId) < length (playerAddr (playerInfos s gameId))"
    using inv assms(2) by (simp add: game_inv_def)
  show "playerIndexes s gameId \<noteq> - 1"
  proof
    assume "playerIndexes s gameId = - 1"
    then have "unat (playerIndexes s gameId + 1) = 0"
      by simp
    with unat_Suc_word [OF lt] show False by simp
  qed
qed

lemma reachable_wf_deck: "reachable s \<Longrightarrow> wf_deck (decks s gameId)"
  using reachable_game_inv [of s gameId] by (simp add: game_inv_def)

lemma reachable_playerPk:
  "reachable s \<Longrightarrow>
    length (playerPk (playerInfos s gameId)) = 2 * length (playerAddr (playerInfos s gameId))"
  using reachable_game_inv [of s gameId] by (simp add: game_inv_def)

lemma deal_initialDeck:
  assumes "deal msg_sender account cardIdx curPlayerIdx zkproof decryptedCard initDelta gameId s
    = Inr s'"
  shows "initialDeck s' = initialDeck s"
proof -
  note gd = deal_guards [OF assms]
  have nb: "\<not> bit (deal_record (cardDeals s gameId) cardIdx) (unat curPlayerIdx)"
    using deal_DoubleDeal [OF gd, of cardIdx zkproof decryptedCard initDelta] assms by simp
  from assms obtain s1 where s1: "deal_first cardIdx initDelta gameId s = Inr s1"
    and s': "s' = deal_write cardIdx curPlayerIdx decryptedCard gameId s1"
    unfolding deal_unfold [OF gd nb]
    by (auto split: sum.splits if_splits)
  have "initialDeck s1 = initialDeck s"
    using s1 by (auto simp: deal_first_def split: if_splits sum.splits)
  then show ?thesis
    unfolding s' by (simp add: deal_write_def Let_def)
qed

lemma shuffle_initialDeck:
  assumes "shuffle msg_sender account zkproof nonce sx0 sx1 sel gameId s = Inr s'"
  shows "initialDeck s' = initialDeck s"
proof -
  note gd = shuffle_guards [OF assms]
  have "shuffle msg_sender account zkproof nonce sx0 sx1 sel gameId s =
    Inr (if playerIndexes s gameId + 1 = numPlayers s gameId
         then (updateDeck sx0 sx1 sel gameId s)
                \<lparr>playerIndexes := (playerIndexes s)(gameId := 0),
                 states := (states s)(gameId := DealingCard)\<rparr>
         else (updateDeck sx0 sx1 sel gameId s)
                \<lparr>playerIndexes := (playerIndexes s)(gameId := playerIndexes s gameId + 1)\<rparr>)"
    using gd by (intro shuffle_success) simp_all
  with assms show ?thesis
    by (auto simp: updateDeck_def Let_def split: if_splits)
qed

lemma register_initialDeck:
  assumes "register msg_sender account pk gameId s = Inr s'"
  shows "initialDeck s' = initialDeck s \<or> initialDeck s' = fixed_initial_deck"
  using register_result [OF assms] by (auto simp: initDeck_built)

text \<open>
  \<open>initialDeck\<close> is written by \<open>initDeck\<close> for game 0 only: until game 0 has completed
  its registration the table that \<open>search\<close> reads holds zeros.
\<close>

lemma reachable_initialDeck:
  "reachable s \<Longrightarrow> initialDeck s = zero_deck \<or> initialDeck s = fixed_initial_deck"
proof (induction rule: reachable.induct)
  case (deployed msg_sender shuffleEncryptContract decryptContract)
  show ?case by (simp add: deploy_def)
next
  case (after_transferOwnership s msg_sender newOwner)
  then show ?case by simp
next
  case (after_setGameContract s msg_sender gameContract' s')
  then show ?case by (auto simp: setGameContract_def split: if_splits)
next
  case (after_setGameSettings s msg_sender numPlayers' gameId s')
  then show ?case by (auto simp: setGameSettings_def split: if_splits)
next
  case (after_register s msg_sender account pk gameId s')
  with register_initialDeck [of msg_sender account pk gameId s s'] show ?case by auto
next
  case (after_shuffle s shuffledX0 shuffledX1 msg_sender account zkproof nonce selector gameId s')
  with shuffle_initialDeck [of msg_sender account zkproof nonce shuffledX0 shuffledX1 selector
      gameId s s'] show ?case by simp
next
  case (after_deal s msg_sender account cardIdx curPlayerIdx zkproof decryptedCard initDelta gameId s')
  with deal_initialDeck [of msg_sender account cardIdx curPlayerIdx zkproof decryptedCard
      initDelta gameId s s'] show ?case by simp
qed

lemma reachable_wf_initialDeck: "reachable s \<Longrightarrow> wf_deck (initialDeck s)"
  using reachable_initialDeck [of s] wf_zero_deck wf_fixed_initial_deck by auto

text \<open>
  The contract assigns no state but \<open>Registration\<close>, \<open>ShufflingDeck\<close> and
  \<open>DealingCard\<close>.
\<close>

lemma reachable_states:
  "reachable s \<Longrightarrow> states s g \<in> {Uncreated, Registration, ShufflingDeck, DealingCard}"
proof (induction rule: reachable.induct)
  case (deployed msg_sender shuffleEncryptContract decryptContract)
  show ?case by (simp add: deploy_def)
next
  case (after_transferOwnership s msg_sender newOwner)
  then show ?case by simp
next
  case (after_setGameContract s msg_sender gameContract' s')
  then show ?case by (auto simp: setGameContract_def split: if_splits)
next
  case (after_setGameSettings s msg_sender numPlayers' gameId s')
  then show ?case by (auto simp: setGameSettings_def split: if_splits)
next
  case (after_register s msg_sender account pk gameId s')
  with register_states [of msg_sender account pk gameId s s'] show ?case
    by (auto split: if_splits)
next
  case (after_shuffle s shuffledX0 shuffledX1 msg_sender account zkproof nonce selector gameId s')
  with shuffle_states [of msg_sender account zkproof nonce shuffledX0 shuffledX1 selector
      gameId s s'] show ?case
    by (auto split: if_splits)
next
  case (after_deal s msg_sender account cardIdx curPlayerIdx zkproof decryptedCard initDelta gameId s')
  with deal_states [of msg_sender account cardIdx curPlayerIdx zkproof decryptedCard
      initDelta gameId s s'] show ?case by simp
qed

section \<open>The example games\<close>

text \<open>
  The storages of the example games are those of a run of the contract: deployment, the
  owner naming the game contract, the settings of game 1, two registrations, two shuffles
  and two deals of card 0 (the lemmas \<open>ex_step\<close>).
\<close>

lemmas ex_defs = ex_dealt_def ex_dealt1_def ex_dealing_def ex_shuffled1_def ex_shuffling_def
  ex_registered1_def ex_registration_def ex_created_def deploy_def

lemma ex_registration_facts:
  "states ex_registration 1 = Registration" "gameContract ex_registration = 2"
  by (simp_all add: ex_defs)

lemma ex_registered1_facts:
  "states ex_registered1 1 = Registration" "gameContract ex_registered1 = 2"
  "playerAddr (playerInfos ex_registered1 1) = [10]"
  "playerPk (playerInfos ex_registered1 1) = [0, 1]"
  "playerIndexes ex_registered1 1 = 1" "numPlayers ex_registered1 1 = 2"
  by (simp_all add: ex_defs)

lemma ex_shuffling_facts:
  "states ex_shuffling 1 = ShufflingDeck" "gameContract ex_shuffling = 2"
  "playerAddr (playerInfos ex_shuffling 1) = [10, 11]"
  "playerIndexes ex_shuffling 1 = 0" "numPlayers ex_shuffling 1 = 2"
  "shuffleEncryptVerifier ex_shuffling = ex_verifier"
  by (simp_all add: ex_defs)

lemma ex_shuffled1_facts:
  "states ex_shuffled1 1 = ShufflingDeck" "gameContract ex_shuffled1 = 2"
  "playerAddr (playerInfos ex_shuffled1 1) = [10, 11]"
  "playerIndexes ex_shuffled1 1 = 1" "numPlayers ex_shuffled1 1 = 2"
  "shuffleEncryptVerifier ex_shuffled1 = ex_verifier"
  "decks ex_shuffled1 1 = zero_deck"
  by (simp_all add: ex_defs)

lemma ex_dealing_facts:
  "states ex_dealing 1 = DealingCard" "gameContract ex_dealing = 2"
  "playerAddr (playerInfos ex_dealing 1) = [10, 11]"
  "playerPk (playerInfos ex_dealing 1) = [0, 1, 0, 1]"
  "deal_record (cardDeals ex_dealing 1) i = 0"
  "decks ex_dealing 1 = zero_deck"
  "decryptVerifier ex_dealing = ex_verifier"
  "playerIndexes ex_dealing 1 = 0"
  by (simp_all add: ex_defs)

lemma ex_dealt1_facts:
  "states ex_dealt1 1 = DealingCard" "gameContract ex_dealt1 = 2"
  "playerAddr (playerInfos ex_dealt1 1) = [10, 11]"
  "playerPk (playerInfos ex_dealt1 1) = [0, 1, 0, 1]"
  "deal_record (cardDeals ex_dealt1 1) 0 = 1"
  "decryptVerifier ex_dealt1 = ex_verifier"
  by (simp_all add: ex_defs)

lemma zero_deck_0: "X0 zero_deck ! 0 = 0" "X1 zero_deck ! 0 = 0" "Selector zero_deck = (0, 0)"
  by (simp_all add: zero_deck_def)

lemma ex_decompressCard: "decompressCard 0 (1, 1) 1 ex_dealing = Inr (Q - 1, Q - 1)"
  by (simp add: decompressCard_def ex_dealing_facts zero_deck_0 decompressEC_0_1_0)

lemma ex_deal_returns:
  "\<exists>s'. deal 2 10 0 0 [1, 0, 0, 0, 0, 0, 0, 0] (5, 6) (1, 1) 1 ex_dealing = Inr s'"
proof -
  have g: "states ex_dealing 1 = DealingCard" "gameContract ex_dealing = 2"
    "unat (0::uint256) < length (playerAddr (playerInfos ex_dealing 1))"
    "playerAddr (playerInfos ex_dealing 1) ! unat (0::uint256) = 10"
    "\<not> bit (deal_record (cardDeals ex_dealing 1) 0) (unat (0::uint256))"
    by (simp_all add: ex_dealing_facts)
  obtain s1 where s1: "deal_first 0 (1, 1) 1 ex_dealing = Inr s1"
    by (simp add: deal_first_def ex_dealing_facts ex_decompressCard)
  note f = deal_first_frame [OF s1]
  obtain input where inp: "deal_input 0 0 (5, 6) 1 s1 = Inr input"
    by (simp add: deal_input_def Let_def f ex_dealing_facts)
  have v: "decryptVerifier s1 [1, 0, 0, 0, 0, 0, 0, 0] input"
    by (simp add: f ex_dealing_facts ex_verifier_def)
  show ?thesis
    unfolding deal_unfold [OF g] by (simp add: s1 inp v)
qed

lemma ex_register_identity:
  "register 2 10 (0, 0) 1 ex_registration = Inl InvalidPublicKey"
  by (simp add: register_def ex_registration_facts not_isOnCurve_0_0)

lemma ex_shuffle_rejected:
  "shuffle 2 10 [0, 0, 0, 0, 0, 0, 0, 0] 0 (replicate 52 7) (replicate 52 8) (3, 4) 1
     ex_shuffling = Inl ProofFailed"
  by (rule shuffle_ProofFailed) (simp_all add: ex_shuffling_facts ex_verifier_def)

lemma ex_step_1: "setGameContract 1 2 (deploy 1 ex_verifier ex_verifier) = Inr ex_created"
  by (simp add: setGameContract_def ex_created_def deploy_def)

lemma ex_step_2: "setGameSettings 2 2 1 ex_created = Inr ex_registration"
  by (simp add: setGameSettings_def ex_registration_def ex_created_def deploy_def)

lemma ex_step_3: "register 2 10 (0, 1) 1 ex_registration = Inr ex_registered1"
  by (simp add: register_def isOnCurve_0_1 Let_def ex_defs)

lemma ex_step_4: "register 2 11 (0, 1) 1 ex_registered1 = Inr ex_shuffling"
proof -
  have h: "gameContract ex_registered1 = 2" "states ex_registered1 1 = Registration"
    "isOnCurve (fst (0, 1)) (snd (0, 1))"
    "length (playerAddr (playerInfos ex_registered1 1)) + 1 = unat (numPlayers ex_registered1 1)"
    "unat (playerIndexes ex_registered1 1) = length (playerAddr (playerInfos ex_registered1 1))"
    "length (playerPk (playerInfos ex_registered1 1)) =
      2 * length (playerAddr (playerInfos ex_registered1 1))"
    "length (playerPk (playerInfos ex_registered1 1)) + 2 < 2 ^ 256"
    by (simp_all add: ex_registered1_facts isOnCurve_0_1)
  have agg: "point_sum (pk_pairs (playerPk (playerInfos ex_registered1 1)) @ [(0, 1)]) = (0, 1)"
    by (simp add: ex_registered1_facts point_sum_def point_add_identity_left)
      (simp add: point_add_def pointAdd_0_1_0_1)
  show ?thesis
    unfolding register_last [OF h] agg
    by (simp add: initDeck_built ex_defs)
qed

lemma ex_step_5:
  "shuffle 2 10 [1, 0, 0, 0, 0, 0, 0, 0] 0 (replicate 52 0) (replicate 52 0) (0, 0) 1
     ex_shuffling = Inr ex_shuffled1"
proof -
  have g: "gameContract ex_shuffling = 2" "states ex_shuffling 1 = ShufflingDeck"
    "unat (playerIndexes ex_shuffling 1) < length (playerAddr (playerInfos ex_shuffling 1))"
    "10 = playerAddr (playerInfos ex_shuffling 1) ! unat (playerIndexes ex_shuffling 1)"
    "shuffleEncryptVerifier ex_shuffling [1, 0, 0, 0, 0, 0, 0, 0]
      (prepareShuffleData 0 (replicate 52 0) (replicate 52 0) (0, 0) 1 ex_shuffling)"
    "playerIndexes ex_shuffling 1 \<noteq> - 1"
    by (simp_all add: ex_shuffling_facts ex_verifier_def)
  have wf: "wf_deck (decks ex_shuffling 1)"
    by (simp add: ex_shuffling_def wf_fixed_initial_deck)
  have u: "updateDeck (replicate 52 0) (replicate 52 0) (0, 0) 1 ex_shuffling =
    ex_shuffling\<lparr>decks := (decks ex_shuffling)(1 := zero_deck)\<rparr>"
    unfolding zero_deck_def by (rule updateDeck_eq [OF wf]) simp_all
  show ?thesis
    unfolding shuffle_success [OF g] u
    by (simp add: ex_shuffling_facts ex_shuffled1_def)
qed

lemma ex_step_6:
  "shuffle 2 11 [1, 0, 0, 0, 0, 0, 0, 0] 0 (replicate 52 0) (replicate 52 0) (0, 0) 1
     ex_shuffled1 = Inr ex_dealing"
proof -
  have g: "gameContract ex_shuffled1 = 2" "states ex_shuffled1 1 = ShufflingDeck"
    "unat (playerIndexes ex_shuffled1 1) < length (playerAddr (playerInfos ex_shuffled1 1))"
    "11 = playerAddr (playerInfos ex_shuffled1 1) ! unat (playerIndexes ex_shuffled1 1)"
    "shuffleEncryptVerifier ex_shuffled1 [1, 0, 0, 0, 0, 0, 0, 0]
      (prepareShuffleData 0 (replicate 52 0) (replicate 52 0) (0, 0) 1 ex_shuffled1)"
    "playerIndexes ex_shuffled1 1 \<noteq> - 1"
    by (simp_all add: ex_shuffled1_facts ex_verifier_def)
  have wf: "wf_deck (decks ex_shuffled1 1)"
    by (simp add: ex_shuffled1_facts wf_zero_deck)
  have u: "updateDeck (replicate 52 0) (replicate 52 0) (0, 0) 1 ex_shuffled1 =
    ex_shuffled1\<lparr>decks := (decks ex_shuffled1)(1 := zero_deck)\<rparr>"
    unfolding zero_deck_def by (rule updateDeck_eq [OF wf]) simp_all
  show ?thesis
    unfolding shuffle_success [OF g] u
    by (simp add: ex_shuffled1_facts) (simp add: ex_shuffled1_def ex_dealing_def)
qed

lemma ex_step_7:
  "deal 2 10 0 0 [1, 0, 0, 0, 0, 0, 0, 0] (5, 6) (1, 1) 1 ex_dealing = Inr ex_dealt1"
proof -
  have g: "states ex_dealing 1 = DealingCard" "gameContract ex_dealing = 2"
    "unat (0::uint256) < length (playerAddr (playerInfos ex_dealing 1))"
    "playerAddr (playerInfos ex_dealing 1) ! unat (0::uint256) = 10"
    "\<not> bit (deal_record (cardDeals ex_dealing 1) 0) (unat (0::uint256))"
    by (simp_all add: ex_dealing_facts)
  show ?thesis
    unfolding deal_unfold [OF g]
    by (simp add: deal_first_def ex_dealing_facts ex_decompressCard zero_deck_0
        deal_input_def Let_def ex_verifier_def deal_write_def ex_dealt1_def)
qed

lemma ex_step_8:
  "deal 2 11 0 1 [1, 0, 0, 0, 0, 0, 0, 0] (0, 1) (0, 0) 1 ex_dealt1 = Inr ex_dealt"
proof -
  have g: "states ex_dealt1 1 = DealingCard" "gameContract ex_dealt1 = 2"
    "unat (1::uint256) < length (playerAddr (playerInfos ex_dealt1 1))"
    "playerAddr (playerInfos ex_dealt1 1) ! unat (1::uint256) = 11"
    "\<not> bit (deal_record (cardDeals ex_dealt1 1) 0) (unat (1::uint256))"
    by (simp_all add: ex_dealt1_facts)
  show ?thesis
    unfolding deal_unfold [OF g]
    by (simp add: deal_first_def ex_dealt1_facts deal_input_def Let_def ex_verifier_def
        deal_write_def) (simp add: ex_dealt1_def ex_dealt_def)
qed

lemma ex_reachable:
  "reachable ex_created" "reachable ex_registration" "reachable ex_registered1"
  "reachable ex_shuffling" "reachable ex_shuffled1" "reachable ex_dealing"
  "reachable ex_dealt1" "reachable ex_dealt"
proof -
  have 0: "reachable (deploy 1 ex_verifier ex_verifier)"
    by (rule deployed)
  show 1: "reachable ex_created"
    using 0 ex_step_1 by (rule after_setGameContract)
  show 2: "reachable ex_registration"
    using 1 ex_step_2 by (rule after_setGameSettings)
  show 3: "reachable ex_registered1"
    using 2 ex_step_3 by (rule after_register)
  show 4: "reachable ex_shuffling"
    using 3 ex_step_4 by (rule after_register)
  show 5: "reachable ex_shuffled1"
    using 4 _ _ ex_step_5 by (rule after_shuffle) simp_all
  show 6: "reachable ex_dealing"
    using 5 _ _ ex_step_6 by (rule after_shuffle) simp_all
  show 7: "reachable ex_dealt1"
    using 6 ex_step_7 by (rule after_deal)
  show "reachable ex_dealt"
    using 7 ex_step_8 by (rule after_deal)
qed

lemmas ex0_defs = ex0_dealt_def ex0_dealing_def ex0_shuffling_def ex0_registration_def
  ex_created_def deploy_def

lemma ex0_step_1: "setGameSettings 2 1 0 ex_created = Inr ex0_registration"
  by (simp add: setGameSettings_def ex0_registration_def ex_created_def deploy_def)

lemma ex0_step_2: "register 2 10 (0, 1) 0 ex0_registration = Inr ex0_shuffling"
proof -
  have h: "gameContract ex0_registration = 2" "states ex0_registration 0 = Registration"
    "isOnCurve (fst (0, 1)) (snd (0, 1))"
    "length (playerAddr (playerInfos ex0_registration 0)) + 1 =
      unat (numPlayers ex0_registration 0)"
    "unat (playerIndexes ex0_registration 0) =
      length (playerAddr (playerInfos ex0_registration 0))"
    "length (playerPk (playerInfos ex0_registration 0)) =
      2 * length (playerAddr (playerInfos ex0_registration 0))"
    "length (playerPk (playerInfos ex0_registration 0)) + 2 < 2 ^ 256"
    by (simp_all add: ex0_defs isOnCurve_0_1)
  have agg: "point_sum (pk_pairs (playerPk (playerInfos ex0_registration 0)) @ [(0, 1)]) = (0, 1)"
    by (simp add: ex0_defs point_sum_def point_add_identity_left)
  show ?thesis
    unfolding register_last [OF h] agg
    by (simp add: initDeck_built ex0_defs)
qed

lemma ex0_step_3:
  "shuffle 2 10 [1, 0, 0, 0, 0, 0, 0, 0] 0 (replicate 52 0) (replicate 52 0) (0, 0) 0
     ex0_shuffling = Inr ex0_dealing"
proof -
  have g: "gameContract ex0_shuffling = 2" "states ex0_shuffling 0 = ShufflingDeck"
    "unat (playerIndexes ex0_shuffling 0) < length (playerAddr (playerInfos ex0_shuffling 0))"
    "10 = playerAddr (playerInfos ex0_shuffling 0) ! unat (playerIndexes ex0_shuffling 0)"
    "shuffleEncryptVerifier ex0_shuffling [1, 0, 0, 0, 0, 0, 0, 0]
      (prepareShuffleData 0 (replicate 52 0) (replicate 52 0) (0, 0) 0 ex0_shuffling)"
    "playerIndexes ex0_shuffling 0 \<noteq> - 1"
    by (simp_all add: ex0_defs ex_verifier_def)
  have wf: "wf_deck (decks ex0_shuffling 0)"
    by (simp add: ex0_defs wf_zero_deck)
  have u: "updateDeck (replicate 52 0) (replicate 52 0) (0, 0) 0 ex0_shuffling =
    ex0_shuffling\<lparr>decks := (decks ex0_shuffling)(0 := zero_deck)\<rparr>"
    unfolding zero_deck_def by (rule updateDeck_eq [OF wf]) simp_all
  have n: "playerIndexes ex0_shuffling 0 + 1 = numPlayers ex0_shuffling 0"
    by (simp add: ex0_defs)
  show ?thesis
    unfolding shuffle_success [OF g] u
    by (simp add: n) (simp add: ex0_dealing_def)
qed

lemma ex0_step_4:
  "deal 2 10 0 0 [1, 0, 0, 0, 0, 0, 0, 0]
     (2763488322167937039616325905516046217694264098671987087929565332380420898366, 6)
     (1, 1) 0 ex0_dealing = Inr ex0_dealt"
proof -
  have f: "states ex0_dealing 0 = DealingCard" "gameContract ex0_dealing = 2"
    "playerAddr (playerInfos ex0_dealing 0) = [10]"
    "playerPk (playerInfos ex0_dealing 0) = [0, 1]"
    "deal_record (cardDeals ex0_dealing 0) i = 0"
    "decks ex0_dealing 0 = zero_deck"
    "decryptVerifier ex0_dealing = ex_verifier" for i
    by (simp_all add: ex0_defs)
  have g: "states ex0_dealing 0 = DealingCard" "gameContract ex0_dealing = 2"
    "unat (0::uint256) < length (playerAddr (playerInfos ex0_dealing 0))"
    "playerAddr (playerInfos ex0_dealing 0) ! unat (0::uint256) = 10"
    "\<not> bit (deal_record (cardDeals ex0_dealing 0) 0) (unat (0::uint256))"
    by (simp_all add: f)
  have dc: "decompressCard 0 (1, 1) 0 ex0_dealing = Inr (Q - 1, Q - 1)"
    by (simp add: decompressCard_def f zero_deck_0 decompressEC_0_1_0)
  show ?thesis
    unfolding deal_unfold [OF g]
    by (simp add: deal_first_def f dc zero_deck_0
        deal_input_def Let_def ex_verifier_def deal_write_def ex0_dealt_def)
qed

lemma ex0_reachable: "reachable ex0_dealt"
proof -
  have "reachable ex0_registration"
    using ex_reachable(1) ex0_step_1 by (rule after_setGameSettings)
  then have "reachable ex0_shuffling"
    using ex0_step_2 by (rule after_register)
  then have "reachable ex0_dealing"
    using _ _ ex0_step_3 by (rule after_shuffle) simp_all
  then show ?thesis
    using ex0_step_4 by (rule after_deal)
qed

lemma ex0_dealt_facts:
  "numPlayers ex0_dealt 0 = 1" "deal_record (cardDeals ex0_dealt 0) 0 = 1"
  "deal_record (cardDeals ex0_dealt 0) 1 = 0"
  "card_X1 (cards (cardDeals ex0_dealt 0) 0) =
    2763488322167937039616325905516046217694264098671987087929565332380420898366"
  "initialDeck ex0_dealt = fixed_initial_deck"
  by (simp_all add: ex0_defs)

text \<open>
  What \<open>search\<close> returns in a reachable storage with fewer than 256 players: it reads
  the storage variable \<open>initialDeck\<close>, which holds the fixed initial deck once
  \<open>initDeck\<close> has run for game 0 (as in the run of game 0 above, where the card is
  found), and 52 zeros before.
\<close>

lemma search_initialDeck:
  assumes "reachable s" and "unat (numPlayers s gameId) < 256"
  shows
    "(initialDeck s = zero_deck \<or> initialDeck s = fixed_initial_deck) \<and>
     (deal_record (cardDeals s gameId) cardIndex \<noteq> 2 ^ unat (numPlayers s gameId) - 1 \<longrightarrow>
        search cardIndex gameId s = Inl CardNotFullyDecrypted) \<and>
     (deal_record (cardDeals s gameId) cardIndex = 2 ^ unat (numPlayers s gameId) - 1 \<longrightarrow>
        (\<exists>i<52. X1 (initialDeck s) ! i = card_X1 (cards (cardDeals s gameId) cardIndex) \<and>
           (\<forall>k<i. X1 (initialDeck s) ! k \<noteq> card_X1 (cards (cardDeals s gameId) cardIndex)) \<and>
           search cardIndex gameId s = Inr (of_nat i)) \<or>
        ((\<forall>i<52. X1 (initialDeck s) ! i \<noteq> card_X1 (cards (cardDeals s gameId) cardIndex)) \<and>
           search cardIndex gameId s = Inr 999999))"
proof -
  have nz: "push_bit (unat (numPlayers s gameId)) (1 :: uint256) \<noteq> 0"
    using assms(2) by (rule push_bit_1_nonzero)
  have pb: "push_bit (unat (numPlayers s gameId)) (1 :: uint256) = 2 ^ unat (numPlayers s gameId)"
    by simp
  note tbl = reachable_initialDeck [OF assms(1)]
  have rest:
    "(deal_record (cardDeals s gameId) cardIndex \<noteq> 2 ^ unat (numPlayers s gameId) - 1 \<longrightarrow>
        search cardIndex gameId s = Inl CardNotFullyDecrypted) \<and>
     (deal_record (cardDeals s gameId) cardIndex = 2 ^ unat (numPlayers s gameId) - 1 \<longrightarrow>
        (\<exists>i<52. X1 (initialDeck s) ! i = card_X1 (cards (cardDeals s gameId) cardIndex) \<and>
           (\<forall>k<i. X1 (initialDeck s) ! k \<noteq> card_X1 (cards (cardDeals s gameId) cardIndex)) \<and>
           search cardIndex gameId s = Inr (of_nat i)) \<or>
        ((\<forall>i<52. X1 (initialDeck s) ! i \<noteq> card_X1 (cards (cardDeals s gameId) cardIndex)) \<and>
           search cardIndex gameId s = Inr 999999))"
    using search_loop_spec [of "X1 (initialDeck s)" "card_X1 (cards (cardDeals s gameId) cardIndex)"] nz
    by (auto simp: search_def Let_def pb INVALID_CARD_INDEX_def)
  from tbl rest show ?thesis by (rule conjI)
qed

lemma ex0_search_found:
  "reachable ex0_dealt \<and> unat (numPlayers ex0_dealt 0) < 256 \<and>
   initialDeck ex0_dealt = fixed_initial_deck \<and>
   search 0 0 ex0_dealt = Inr 2 \<and> search 1 0 ex0_dealt = Inl CardNotFullyDecrypted"
proof -
  have h: "unat (numPlayers ex0_dealt 0) < 256"
    by (simp add: ex0_dealt_facts)
  have r: "deal_record (cardDeals ex0_dealt 0) 0 = 2 ^ unat (numPlayers ex0_dealt 0) - 1"
    "deal_record (cardDeals ex0_dealt 0) 1 \<noteq> 2 ^ unat (numPlayers ex0_dealt 0) - 1"
    by (simp_all add: ex0_dealt_facts)
  have t: "X1 (initialDeck ex0_dealt) ! 2 = card_X1 (cards (cardDeals ex0_dealt 0) 0)"
    "X1 (initialDeck ex0_dealt) ! 0 \<noteq> card_X1 (cards (cardDeals ex0_dealt 0) 0)"
    "X1 (initialDeck ex0_dealt) ! 1 \<noteq> card_X1 (cards (cardDeals ex0_dealt 0) 0)"
    by (simp_all add: ex0_dealt_facts fixed_initial_deck_def initial_X1_def)
  note inst = search_initialDeck [OF ex0_reachable h]
  from inst [of 0, THEN conjunct2, THEN conjunct2, rule_format, OF r(1)] t(1)
  obtain i where i: "i < 52"
    "X1 (initialDeck ex0_dealt) ! i = card_X1 (cards (cardDeals ex0_dealt 0) 0)"
    "\<forall>k<i. X1 (initialDeck ex0_dealt) ! k \<noteq> card_X1 (cards (cardDeals ex0_dealt 0) 0)"
    "search 0 0 ex0_dealt = Inr (of_nat i)"
    by auto
  from i(3) t(1) have "\<not> 2 < i" by blast
  then have "i = 0 \<or> i = 1 \<or> i = 2" by arith
  with i(2) t(2,3) have "i = 2" by auto
  with i(4) have "search 0 0 ex0_dealt = Inr 2" by simp
  moreover from inst [of 1, THEN conjunct2, THEN conjunct1, rule_format, OF r(2)]
  have "search 1 0 ex0_dealt = Inl CardNotFullyDecrypted" .
  ultimately show ?thesis using h ex0_reachable ex0_dealt_facts(5) by simp
qed

lemma ex_sx_sq:
  "mulmod ex_sx ex_sx Q =
    8517471723815251336780141066739207692578153395341502113578873801044114406116"
  by (simp add: mulmod_def ex_sx_def Q_def)

lemma ex_sx_A:
  "mulmod A 8517471723815251336780141066739207692578153395341502113578873801044114406116 Q = 1"
  by (simp add: mulmod_def A_def Q_def)

lemma isOnCurve_sx_0: "isOnCurve ex_sx 0"
  unfolding isOnCurve_iff
  by (simp add: ex_sx_sq ex_sx_A mulmod_zero_left mulmod_zero_right addmod_zero_right
      one_less_Q)

lemma isOnCurve_0_minus_1: "isOnCurve 0 (Q - 1)"
  unfolding isOnCurve_iff
  by (simp add: mulmod_minus_1_sq mulmod_zero_left mulmod_zero_right addmod_zero_right
      addmod_zero_left one_less_Q)

lemma ex_sx_not_0: "ex_sx \<noteq> 0"
  by (simp add: ex_sx_def)

text \<open>
  The second shortcut of \<open>pointAdd\<close> tests \<open>_x2 == 0 && _y1 == 0\<close>: it returns the
  first point for these two points of the curve, neither of which is \<open>(0, 0)\<close>.
\<close>

lemma pointAdd_sx_slip: "pointAdd ex_sx 0 0 (Q - 1) = (ex_sx, 0)"
  by (simp add: pointAdd_def ex_sx_not_0)

lemma spec_inverse_1: "spec_inverse (Suc 0) = 1"
  by (simp add: spec_inverse_def unat_Q)

lemma spec_point_add_identity_left: "spec_point_add (0, 0) p = p"
  by (simp add: spec_point_add_def)

lemma spec_point_add_sx:
  "spec_point_add (ex_sx, 0) (0, Q - 1) =
    (18930368022820495955728484915491405972470733850014661777449844430438130630919, 0)"
proof -
  have x: "unat ex_sx * unat (Q - 1) mod
      21888242871839275222246405745257275088548364400416034343698204186575808495617 =
    18930368022820495955728484915491405972470733850014661777449844430438130630919"
    by (simp add: ex_sx_def Q_def)
  show ?thesis
    unfolding spec_point_add_def Let_def
    by (simp add: Q_not_1 ex_sx_not_0 x spec_inverse_1 unat_Q)
qed

lemma ex_slip_step_3: "register 2 10 (ex_sx, 0) 1 ex_registration = Inr ex_slip_registered1"
  by (simp add: register_def isOnCurve_sx_0 Let_def ex_slip_registered1_def
      ex_registration_def ex_created_def deploy_def)

lemma ex_slip_reachable: "reachable ex_slip_registered1"
  using ex_reachable(2) ex_slip_step_3 by (rule after_register)

lemma ex_slip_registered1_facts:
  "gameContract ex_slip_registered1 = 2" "states ex_slip_registered1 1 = Registration"
  "playerAddr (playerInfos ex_slip_registered1 1) = [10]"
  "playerPk (playerInfos ex_slip_registered1 1) = [ex_sx, 0]"
  "playerIndexes ex_slip_registered1 1 = 1" "numPlayers ex_slip_registered1 1 = 2"
  by (simp_all add: ex_slip_registered1_def ex_registration_def ex_created_def deploy_def)

lemma ex_step_8_entry2:
  "deal 2 11 0 1 [1, 0, 0, 0, 0, 0, 0, 0]
     (2763488322167937039616325905516046217694264098671987087929565332380420898366, 6)
     (0, 0) 1 ex_dealt1 = Inr ex_dealt_entry2"
proof -
  have g: "states ex_dealt1 1 = DealingCard" "gameContract ex_dealt1 = 2"
    "unat (1::uint256) < length (playerAddr (playerInfos ex_dealt1 1))"
    "playerAddr (playerInfos ex_dealt1 1) ! unat (1::uint256) = 11"
    "\<not> bit (deal_record (cardDeals ex_dealt1 1) 0) (unat (1::uint256))"
    by (simp_all add: ex_dealt1_facts)
  show ?thesis
    unfolding deal_unfold [OF g]
    by (simp add: deal_first_def ex_dealt1_facts deal_input_def Let_def ex_verifier_def
        deal_write_def) (simp add: ex_dealt1_def ex_dealt_entry2_def)
qed

lemma ex_dealt_entry2_reachable: "reachable ex_dealt_entry2"
  using ex_reachable(7) ex_step_8_entry2 by (rule after_deal)

lemma ex_dealt_entry2_facts:
  "numPlayers ex_dealt_entry2 1 = 2" "deal_record (cardDeals ex_dealt_entry2 1) 0 = 3"
  "card_X1 (cards (cardDeals ex_dealt_entry2 1) 0) =
    2763488322167937039616325905516046217694264098671987087929565332380420898366"
  "initialDeck ex_dealt_entry2 = zero_deck"
  by (simp_all add: ex_dealt_entry2_def ex_defs)

lemma zero_deck_nth: "i < 52 \<Longrightarrow> X1 zero_deck ! i = 0"
  by (simp add: zero_deck_def)

lemma initial_X1_entry2:
  "initial_X1 ! 2 =
    2763488322167937039616325905516046217694264098671987087929565332380420898366"
  by (simp add: initial_X1_def)

section \<open>The claims\<close>

text \<open>
  C1. A \<open>shuffle\<close> that reaches the verifier (called by the game contract, in the
  shuffle phase, by the player to move) with a proof that the shuffle verifier rejects on
  the public signals of \<open>prepareShuffleData\<close>, and a \<open>deal\<close> that reaches the
  verifier (in the dealing phase, called by the game contract for a registered player who
  has not dealt the card, after the first block and the reads of the public signals) with a
  proof that the decrypt verifier rejects: the transaction fails with \<open>ProofFailed\<close> and
  the storage after it is the storage before it, although \<open>deal\<close> may have written the
  card before the verification.
\<close>

theorem C1_proof_rejected:
  "(gameContract s = msg_sender \<and> states s gameId = ShufflingDeck \<and>
    unat (playerIndexes s gameId) < length (playerAddr (playerInfos s gameId)) \<and>
    account = playerAddr (playerInfos s gameId) ! unat (playerIndexes s gameId) \<and>
    \<not> shuffleEncryptVerifier s zkproof
        (prepareShuffleData nonce shuffledX0 shuffledX1 selector gameId s) \<longrightarrow>
      transact (shuffle msg_sender account zkproof nonce shuffledX0 shuffledX1 selector gameId) s
        = (Some ProofFailed, s)) \<and>
   (states s gameId = DealingCard \<and> gameContract s = msg_sender \<and>
    unat curPlayerIdx < length (playerAddr (playerInfos s gameId)) \<and>
    playerAddr (playerInfos s gameId) ! unat curPlayerIdx = account \<and>
    \<not> bit (deal_record (cardDeals s gameId) cardIdx) (unat curPlayerIdx) \<and>
    deal_first cardIdx initDelta gameId s = Inr s1 \<and>
    deal_input cardIdx curPlayerIdx decryptedCard gameId s1 = Inr input \<and>
    \<not> decryptVerifier s zkproof input \<longrightarrow>
      transact (deal msg_sender account cardIdx curPlayerIdx zkproof decryptedCard initDelta
        gameId) s = (Some ProofFailed, s))"
proof (intro conjI impI)
  assume "gameContract s = msg_sender \<and> states s gameId = ShufflingDeck \<and>
    unat (playerIndexes s gameId) < length (playerAddr (playerInfos s gameId)) \<and>
    account = playerAddr (playerInfos s gameId) ! unat (playerIndexes s gameId) \<and>
    \<not> shuffleEncryptVerifier s zkproof
        (prepareShuffleData nonce shuffledX0 shuffledX1 selector gameId s)"
  then have "shuffle msg_sender account zkproof nonce shuffledX0 shuffledX1 selector gameId s
    = Inl ProofFailed"
    by (intro shuffle_ProofFailed) simp_all
  then show "transact (shuffle msg_sender account zkproof nonce shuffledX0 shuffledX1 selector
      gameId) s = (Some ProofFailed, s)"
    by (rule transact_Inl)
next
  assume "states s gameId = DealingCard \<and> gameContract s = msg_sender \<and>
    unat curPlayerIdx < length (playerAddr (playerInfos s gameId)) \<and>
    playerAddr (playerInfos s gameId) ! unat curPlayerIdx = account \<and>
    \<not> bit (deal_record (cardDeals s gameId) cardIdx) (unat curPlayerIdx) \<and>
    deal_first cardIdx initDelta gameId s = Inr s1 \<and>
    deal_input cardIdx curPlayerIdx decryptedCard gameId s1 = Inr input \<and>
    \<not> decryptVerifier s zkproof input"
  then have "deal msg_sender account cardIdx curPlayerIdx zkproof decryptedCard initDelta
      gameId s = Inl ProofFailed"
    by (intro deal_ProofFailed [where ?s1.0 = s1 and input = input]) simp_all
  then show "transact (deal msg_sender account cardIdx curPlayerIdx zkproof decryptedCard
      initDelta gameId) s = (Some ProofFailed, s)"
    by (rule transact_Inl)
qed

theorem C1_witness:
  "(\<forall>input. \<not> ex_verifier [0, 0, 0, 0, 0, 0, 0, 0] input) \<and>
   transact (shuffle 2 10 [0, 0, 0, 0, 0, 0, 0, 0] 0 (replicate 52 7) (replicate 52 8) (3, 4) 1)
     ex_shuffling = (Some ProofFailed, ex_shuffling) \<and>
   (\<exists>s1. deal_first 0 (1, 1) 1 ex_dealing = Inr s1 \<and> s1 \<noteq> ex_dealing) \<and>
   transact (deal 2 10 0 0 [0, 0, 0, 0, 0, 0, 0, 0] (5, 6) (1, 1) 1) ex_dealing
     = (Some ProofFailed, ex_dealing)"
proof -
  have rej: "\<not> ex_verifier [0, 0, 0, 0, 0, 0, 0, 0] i" for i
    by (simp add: ex_verifier_def)
  have a: "gameContract ex_shuffling = 2 \<and> states ex_shuffling 1 = ShufflingDeck \<and>
    unat (playerIndexes ex_shuffling 1) < length (playerAddr (playerInfos ex_shuffling 1)) \<and>
    10 = playerAddr (playerInfos ex_shuffling 1) ! unat (playerIndexes ex_shuffling 1) \<and>
    \<not> shuffleEncryptVerifier ex_shuffling [0, 0, 0, 0, 0, 0, 0, 0]
        (prepareShuffleData 0 (replicate 52 7) (replicate 52 8) (3, 4) 1 ex_shuffling)"
    by (simp add: ex_shuffling_facts rej)
  obtain s1 where s1: "deal_first 0 (1, 1) 1 ex_dealing = Inr s1"
    and s1': "card_Y0 (cards (cardDeals s1 1) 0) = Q - 1"
    by (simp add: deal_first_def ex_dealing_facts ex_decompressCard)
  have "card_Y0 (cards (cardDeals ex_dealing 1) 0) = 0"
    by (simp add: ex_defs)
  moreover have "Q - 1 \<noteq> 0"
    by (simp add: Q_def)
  ultimately have ne: "s1 \<noteq> ex_dealing"
    using s1' by auto
  note f = deal_first_frame [OF s1]
  obtain inp where inp: "deal_input 0 0 (5, 6) 1 s1 = Inr inp"
    by (simp add: deal_input_def Let_def f ex_dealing_facts)
  have b: "states ex_dealing 1 = DealingCard \<and> gameContract ex_dealing = 2 \<and>
    unat (0::uint256) < length (playerAddr (playerInfos ex_dealing 1)) \<and>
    playerAddr (playerInfos ex_dealing 1) ! unat (0::uint256) = 10 \<and>
    \<not> bit (deal_record (cardDeals ex_dealing 1) 0) (unat (0::uint256)) \<and>
    deal_first 0 (1, 1) 1 ex_dealing = Inr s1 \<and>
    deal_input 0 0 (5, 6) 1 s1 = Inr inp \<and>
    \<not> decryptVerifier ex_dealing [0, 0, 0, 0, 0, 0, 0, 0] inp"
    by (simp add: ex_dealing_facts rej s1 inp)
  note inst = C1_proof_rejected [of ex_shuffling 2 1 10 "[0, 0, 0, 0, 0, 0, 0, 0]" 0
      "replicate 52 7" "replicate 52 8" "(3, 4)"]
  note inst2 = C1_proof_rejected [of ex_dealing 2 1 10 _ _ _ _ _ 0 0 "(1, 1)" s1 "(5, 6)" inp]
  from inst [THEN conjunct1, rule_format, OF a]
    inst2 [where zkproof = "[0, 0, 0, 0, 0, 0, 0, 0]", THEN conjunct2, rule_format, OF b] s1 ne rej
  show ?thesis by blast
qed

text \<open>
  C2. The sum that \<open>register\<close> stores is not the specification's: in the reachable
  storage where player 10 of game 1 has registered the curve point \<open>(ex_sx, 0)\<close>, the
  registration of player 11, the second of two, with the curve point \<open>(0, Q - 1)\<close>
  returns, resets the turn index, moves the game to \<open>ShufflingDeck\<close> and stores the
  fixed initial deck, but the aggregated key it stores is \<open>(ex_sx, 0)\<close>, the first key,
  through the second shortcut of \<open>pointAdd\<close>, whereas the left fold of the
  specification's \<open>point_add\<close> over the two keys is \<open>(Q - ex_sx, 0)\<close>.
\<close>

theorem C2_aggregated_key_slip:
  "reachable ex_slip_registered1 \<and> isOnCurve ex_sx 0 \<and> isOnCurve 0 (Q - 1) \<and>
   unat (playerIndexes ex_slip_registered1 1) + 1 = unat (numPlayers ex_slip_registered1 1) \<and>
   (\<exists>s'. register 2 11 (0, Q - 1) 1 ex_slip_registered1 = Inr s' \<and>
      pk_pairs (playerPk (playerInfos s' 1)) = [(ex_sx, 0), (0, Q - 1)] \<and>
      playerIndexes s' 1 = 0 \<and> states s' 1 = ShufflingDeck \<and>
      decks s' 1 = fixed_initial_deck \<and>
      aggregatedPk (playerInfos s' 1) = (ex_sx, 0) \<and>
      spec_point_sum (pk_pairs (playerPk (playerInfos s' 1))) = (Q - ex_sx, 0) \<and>
      aggregatedPk (playerInfos s' 1) \<noteq> spec_point_sum (pk_pairs (playerPk (playerInfos s' 1))))"
proof -
  have h: "gameContract ex_slip_registered1 = 2" "states ex_slip_registered1 1 = Registration"
    "isOnCurve (fst (0, Q - 1)) (snd (0, Q - 1))"
    "length (playerAddr (playerInfos ex_slip_registered1 1)) + 1 =
      unat (numPlayers ex_slip_registered1 1)"
    "unat (playerIndexes ex_slip_registered1 1) =
      length (playerAddr (playerInfos ex_slip_registered1 1))"
    "length (playerPk (playerInfos ex_slip_registered1 1)) =
      2 * length (playerAddr (playerInfos ex_slip_registered1 1))"
    "length (playerPk (playerInfos ex_slip_registered1 1)) + 2 < 2 ^ 256"
    by (simp_all add: ex_slip_registered1_facts isOnCurve_0_minus_1)
  have agg: "point_sum (pk_pairs (playerPk (playerInfos ex_slip_registered1 1)) @ [(0, Q - 1)])
    = (ex_sx, 0)"
    by (simp add: ex_slip_registered1_facts point_sum_def point_add_identity_left)
      (simp add: point_add_def pointAdd_sx_slip)
  have diff: "Q - ex_sx =
    18930368022820495955728484915491405972470733850014661777449844430438130630919"
    by (simp add: Q_def ex_sx_def)
  have spec: "spec_point_sum [(ex_sx, 0), (0, Q - 1)] = (Q - ex_sx, 0)"
    unfolding diff
    by (simp add: spec_point_sum_def spec_point_add_identity_left spec_point_add_sx)
  have ne: "(ex_sx, 0 :: uint256) \<noteq> (Q - ex_sx, 0)"
    unfolding diff by (simp add: ex_sx_def)
  have idx: "unat (playerIndexes ex_slip_registered1 1) + 1 =
    unat (numPlayers ex_slip_registered1 1)"
    by (simp add: ex_slip_registered1_facts)
  have "\<exists>s'. register 2 11 (0, Q - 1) 1 ex_slip_registered1 = Inr s' \<and>
      pk_pairs (playerPk (playerInfos s' 1)) = [(ex_sx, 0), (0, Q - 1)] \<and>
      playerIndexes s' 1 = 0 \<and> states s' 1 = ShufflingDeck \<and>
      decks s' 1 = fixed_initial_deck \<and>
      aggregatedPk (playerInfos s' 1) = (ex_sx, 0)"
    unfolding register_last [OF h] agg
    by (simp add: initDeck_built ex_slip_registered1_facts)
  with spec ne ex_slip_reachable isOnCurve_sx_0 isOnCurve_0_minus_1 idx show ?thesis
    by auto
qed

text \<open>
  C3. In a reachable storage, for a call by the game contract with arrays of 52 words:
  \<open>shuffle\<close> returns only in the shuffle phase and for the account
  \<open>playerAddr[playerIndexes]\<close>; outside the shuffle phase it reverts with "Not in
  shuffle phase", and in the shuffle phase, for another account than that of the player to
  move, with "Not your turn yet". When it returns, the deck holds the submitted \<open>X0\<close>,
  \<open>X1\<close> and selectors, and the turn index is one more than before (the addition does
  not wrap), unless that is \<open>numPlayers\<close>: then the state is \<open>DealingCard\<close> and
  the turn index 0. It does return when the verifier accepts the proof. In the shuffle
  phase the turn index is below \<open>numPlayers\<close> and is the index of a registered account.
\<close>

theorem C3_shuffle:
  assumes "reachable s" and "length shuffledX0 = 52" and "length shuffledX1 = 52"
    and "gameContract s = msg_sender"
  shows
    "(\<forall>s'. shuffle msg_sender account zkproof nonce shuffledX0 shuffledX1 selector gameId s = Inr s' \<longrightarrow>
        states s gameId = ShufflingDeck \<and>
        account = playerAddr (playerInfos s gameId) ! unat (playerIndexes s gameId) \<and>
        decks s' gameId = \<lparr>X0 = shuffledX0, X1 = shuffledX1, Selector = selector\<rparr> \<and>
        unat (playerIndexes s gameId + 1) = unat (playerIndexes s gameId) + 1 \<and>
        (if playerIndexes s gameId + 1 = numPlayers s gameId
         then states s' gameId = DealingCard \<and> playerIndexes s' gameId = 0
         else states s' gameId = ShufflingDeck \<and>
              playerIndexes s' gameId = playerIndexes s gameId + 1)) \<and>
     (states s gameId \<noteq> ShufflingDeck \<longrightarrow>
        shuffle msg_sender account zkproof nonce shuffledX0 shuffledX1 selector gameId s =
          Inl InvalidState) \<and>
     (states s gameId = ShufflingDeck \<and>
      account \<noteq> playerAddr (playerInfos s gameId) ! unat (playerIndexes s gameId) \<longrightarrow>
        shuffle msg_sender account zkproof nonce shuffledX0 shuffledX1 selector gameId s =
          Inl NotYourTurn) \<and>
     (states s gameId = ShufflingDeck \<and>
      account = playerAddr (playerInfos s gameId) ! unat (playerIndexes s gameId) \<and>
      shuffleEncryptVerifier s zkproof
        (prepareShuffleData nonce shuffledX0 shuffledX1 selector gameId s) \<longrightarrow>
        (\<exists>s'. shuffle msg_sender account zkproof nonce shuffledX0 shuffledX1 selector gameId s =
          Inr s')) \<and>
     (states s gameId = ShufflingDeck \<longrightarrow>
        unat (playerIndexes s gameId) < unat (numPlayers s gameId) \<and>
        unat (playerIndexes s gameId) < length (playerAddr (playerInfos s gameId)))"
proof -
  let ?call = "shuffle msg_sender account zkproof nonce shuffledX0 shuffledX1 selector gameId s"
  note wf = reachable_wf_deck [OF assms(1), of gameId]
  note d = updateDeck_deck [OF wf assms(2,3), of selector]
  note t = reachable_turn [OF assms(1)]
  have a: "states s gameId = ShufflingDeck \<and>
        account = playerAddr (playerInfos s gameId) ! unat (playerIndexes s gameId) \<and>
        decks s' gameId = \<lparr>X0 = shuffledX0, X1 = shuffledX1, Selector = selector\<rparr> \<and>
        unat (playerIndexes s gameId + 1) = unat (playerIndexes s gameId) + 1 \<and>
        (if playerIndexes s gameId + 1 = numPlayers s gameId
         then states s' gameId = DealingCard \<and> playerIndexes s' gameId = 0
         else states s' gameId = ShufflingDeck \<and>
              playerIndexes s' gameId = playerIndexes s gameId + 1)"
    if r: "?call = Inr s'" for s'
  proof -
    note g = shuffle_guards [OF r]
    have "?call = Inr (if playerIndexes s gameId + 1 = numPlayers s gameId
         then (updateDeck shuffledX0 shuffledX1 selector gameId s)
                \<lparr>playerIndexes := (playerIndexes s)(gameId := 0),
                 states := (states s)(gameId := DealingCard)\<rparr>
         else (updateDeck shuffledX0 shuffledX1 selector gameId s)
                \<lparr>playerIndexes := (playerIndexes s)(gameId := playerIndexes s gameId + 1)\<rparr>)"
      using g by (intro shuffle_success) simp_all
    with r have s': "s' = (if playerIndexes s gameId + 1 = numPlayers s gameId
         then (updateDeck shuffledX0 shuffledX1 selector gameId s)
                \<lparr>playerIndexes := (playerIndexes s)(gameId := 0),
                 states := (states s)(gameId := DealingCard)\<rparr>
         else (updateDeck shuffledX0 shuffledX1 selector gameId s)
                \<lparr>playerIndexes := (playerIndexes s)(gameId := playerIndexes s gameId + 1)\<rparr>)"
      by simp
    have "decks s' gameId = \<lparr>X0 = shuffledX0, X1 = shuffledX1, Selector = selector\<rparr>"
      unfolding s' using d by (simp add: updateDeck_decks_upd)
    moreover have "if playerIndexes s gameId + 1 = numPlayers s gameId
         then states s' gameId = DealingCard \<and> playerIndexes s' gameId = 0
         else states s' gameId = ShufflingDeck \<and>
              playerIndexes s' gameId = playerIndexes s gameId + 1"
      unfolding s' using g by (simp add: updateDeck_other)
    moreover have "unat (playerIndexes s gameId + 1) = unat (playerIndexes s gameId) + 1"
      using g by (intro unat_Suc_not_max) simp
    ultimately show ?thesis using g by simp
  qed
  have b: "states s gameId \<noteq> ShufflingDeck \<longrightarrow> ?call = Inl InvalidState"
    using assms(4) by (simp add: shuffle_def)
  have c: "states s gameId = ShufflingDeck \<and>
      account \<noteq> playerAddr (playerInfos s gameId) ! unat (playerIndexes s gameId) \<longrightarrow>
        ?call = Inl NotYourTurn"
    using assms(4) t(2) [of gameId] by (simp add: shuffle_def)
  have e: "\<exists>s'. ?call = Inr s'"
    if "states s gameId = ShufflingDeck"
      "account = playerAddr (playerInfos s gameId) ! unat (playerIndexes s gameId)"
      "shuffleEncryptVerifier s zkproof
        (prepareShuffleData nonce shuffledX0 shuffledX1 selector gameId s)"
    using shuffle_success [OF assms(4) that(1) t(2) [OF that(1)] that(2,3) t(3) [OF that(1)]]
    by simp
  have f: "states s gameId = ShufflingDeck \<longrightarrow>
        unat (playerIndexes s gameId) < unat (numPlayers s gameId) \<and>
        unat (playerIndexes s gameId) < length (playerAddr (playerInfos s gameId))"
    using t(1,2) [of gameId] by simp
  from a have a': "\<forall>s'. ?call = Inr s' \<longrightarrow>
        states s gameId = ShufflingDeck \<and>
        account = playerAddr (playerInfos s gameId) ! unat (playerIndexes s gameId) \<and>
        decks s' gameId = \<lparr>X0 = shuffledX0, X1 = shuffledX1, Selector = selector\<rparr> \<and>
        unat (playerIndexes s gameId + 1) = unat (playerIndexes s gameId) + 1 \<and>
        (if playerIndexes s gameId + 1 = numPlayers s gameId
         then states s' gameId = DealingCard \<and> playerIndexes s' gameId = 0
         else states s' gameId = ShufflingDeck \<and>
              playerIndexes s' gameId = playerIndexes s gameId + 1)"
    by (intro allI impI)
  from e have e': "states s gameId = ShufflingDeck \<and>
      account = playerAddr (playerInfos s gameId) ! unat (playerIndexes s gameId) \<and>
      shuffleEncryptVerifier s zkproof
        (prepareShuffleData nonce shuffledX0 shuffledX1 selector gameId s) \<longrightarrow>
        (\<exists>s'. ?call = Inr s')"
    by (intro impI) (elim conjE)
  show ?thesis
    by (intro conjI a' b c e' f)
qed

theorem C3_witness:
  "reachable ex_shuffling \<and> gameContract ex_shuffling = 2 \<and>
   states ex_shuffling 1 = ShufflingDeck \<and>
   playerAddr (playerInfos ex_shuffling 1) ! unat (playerIndexes ex_shuffling 1) = 10 \<and>
   (\<exists>s'. shuffle 2 10 [1, 0, 0, 0, 0, 0, 0, 0] 0 (replicate 52 7) (replicate 52 8) (3, 4) 1
            ex_shuffling = Inr s' \<and>
      decks s' 1 = \<lparr>X0 = replicate 52 7, X1 = replicate 52 8, Selector = (3, 4)\<rparr> \<and>
      states s' 1 = ShufflingDeck \<and> playerIndexes s' 1 = 1)"
proof -
  have h: "length (replicate 52 (7::uint256)) = 52"
    "length (replicate 52 (8::uint256)) = 52" "gameContract ex_shuffling = 2"
    by (simp_all add: ex_shuffling_facts)
  have g: "states ex_shuffling 1 = ShufflingDeck"
    "10 = playerAddr (playerInfos ex_shuffling 1) ! unat (playerIndexes ex_shuffling 1)"
    "playerIndexes ex_shuffling 1 = 0" "numPlayers ex_shuffling 1 = 2"
    "shuffleEncryptVerifier ex_shuffling [1, 0, 0, 0, 0, 0, 0, 0] input"
    for input
    by (simp_all add: ex_shuffling_facts ex_verifier_def)
  let ?call = "shuffle 2 10 [1, 0, 0, 0, 0, 0, 0, 0] 0 (replicate 52 7) (replicate 52 8) (3, 4) 1
    ex_shuffling"
  note inst = C3_shuffle [OF ex_reachable(4) h, of 10 "[1, 0, 0, 0, 0, 0, 0, 0]" 0 "(3, 4)" 1]
  note v = g(5) [of "prepareShuffleData 0 (replicate 52 7) (replicate 52 8) (3, 4) 1 ex_shuffling"]
  from inst [THEN conjunct2, THEN conjunct2, THEN conjunct2, THEN conjunct1, rule_format]
    g(1,2) v
  obtain s' where s': "?call = Inr s'"
    by blast
  from inst [THEN conjunct1, rule_format, OF s'] have
    "decks s' 1 = \<lparr>X0 = replicate 52 7, X1 = replicate 52 8, Selector = (3, 4)\<rparr> \<and>
     (if playerIndexes ex_shuffling 1 + 1 = numPlayers ex_shuffling 1
         then states s' 1 = DealingCard \<and> playerIndexes s' 1 = 0
         else states s' 1 = ShufflingDeck \<and>
              playerIndexes s' 1 = playerIndexes ex_shuffling 1 + 1)"
    by blast
  then have "decks s' 1 = \<lparr>X0 = replicate 52 7, X1 = replicate 52 8, Selector = (3, 4)\<rparr> \<and>
    states s' 1 = ShufflingDeck \<and> playerIndexes s' 1 = 1"
    unfolding g(3,4) by simp
  with s' h(3) g(1) g(2) [symmetric] ex_reachable(4) show ?thesis by blast
qed

text \<open>
  C4 (amended). In the dealing phase, for a call by the game contract whose account is that
  of player \<open>j\<close>: \<open>deal\<close> on card \<open>i\<close> reverts with "detected double dealing
  the same card" if and only if bit \<open>j\<close> of \<open>record[i]\<close> is set. When it returns,
  \<open>record[i]\<close> is the old record or-ed with \<open>1 << j\<close> (so bit \<open>j\<close> is set, for
  \<open>j\<close> below 256), the card's \<open>(X1, Y1)\<close> is the submitted decrypted card, and the
  turn index \<open>playerIndexes\<close> is what it was: \<open>deal\<close> never writes it.
\<close>

theorem C4_deal:
  assumes "states s gameId = DealingCard" and "gameContract s = msg_sender"
    and "unat j < length (playerAddr (playerInfos s gameId))"
    and "playerAddr (playerInfos s gameId) ! unat j = account"
  shows
    "(deal msg_sender account i j zkproof decryptedCard initDelta gameId s = Inl DoubleDeal \<longleftrightarrow>
        bit (deal_record (cardDeals s gameId) i) (unat j)) \<and>
     (\<forall>s'. deal msg_sender account i j zkproof decryptedCard initDelta gameId s = Inr s' \<longrightarrow>
        deal_record (cardDeals s' gameId) i =
          deal_record (cardDeals s gameId) i OR push_bit (unat j) 1 \<and>
        (unat j < 256 \<longrightarrow> bit (deal_record (cardDeals s' gameId) i) (unat j)) \<and>
        card_X1 (cards (cardDeals s' gameId) i) = fst decryptedCard \<and>
        card_Y1 (cards (cardDeals s' gameId) i) = snd decryptedCard \<and>
        playerIndexes s' gameId = playerIndexes s gameId)"
proof -
  have "deal_record (cardDeals s' gameId) i =
          deal_record (cardDeals s gameId) i OR push_bit (unat j) 1 \<and>
        (unat j < 256 \<longrightarrow> bit (deal_record (cardDeals s' gameId) i) (unat j)) \<and>
        card_X1 (cards (cardDeals s' gameId) i) = fst decryptedCard \<and>
        card_Y1 (cards (cardDeals s' gameId) i) = snd decryptedCard \<and>
        playerIndexes s' gameId = playerIndexes s gameId"
    if r: "deal msg_sender account i j zkproof decryptedCard initDelta gameId s = Inr s'" for s'
  proof -
    note d = deal_result [OF assms r]
    from d(1) have "unat j < 256 \<longrightarrow> bit (deal_record (cardDeals s' gameId) i) (unat j)"
      by (simp add: record_bit_set)
    with d show ?thesis by simp
  qed
  with deal_DoubleDeal [OF assms, of i zkproof decryptedCard initDelta] show ?thesis
    by blast
qed

theorem C4_witness:
  "states ex_dealing 1 = DealingCard \<and> gameContract ex_dealing = 2 \<and>
   playerAddr (playerInfos ex_dealing 1) ! unat (0::uint256) = 10 \<and>
   \<not> bit (deal_record (cardDeals ex_dealing 1) 0) (unat (0::uint256)) \<and>
   (\<exists>s'. deal 2 10 0 0 [1, 0, 0, 0, 0, 0, 0, 0] (5, 6) (1, 1) 1 ex_dealing = Inr s' \<and>
      bit (deal_record (cardDeals s' 1) 0) (unat (0::uint256)) \<and>
      card_X1 (cards (cardDeals s' 1) 0) = 5 \<and> card_Y1 (cards (cardDeals s' 1) 0) = 6)"
proof -
  have g: "states ex_dealing 1 = DealingCard" "gameContract ex_dealing = 2"
    "unat (0::uint256) < length (playerAddr (playerInfos ex_dealing 1))"
    "playerAddr (playerInfos ex_dealing 1) ! unat (0::uint256) = 10"
    by (simp_all add: ex_dealing_facts)
  have nb: "\<not> bit (deal_record (cardDeals ex_dealing 1) 0) (unat (0::uint256))"
    by (simp add: ex_dealing_facts)
  have small: "unat (0::uint256) < 256" by simp
  note inst = C4_deal [OF g, of 0 "[1, 0, 0, 0, 0, 0, 0, 0]" "(5, 6)" "(1, 1)"]
  from ex_deal_returns obtain s'
    where s': "deal 2 10 0 0 [1, 0, 0, 0, 0, 0, 0, 0] (5, 6) (1, 1) 1 ex_dealing = Inr s'"
    by blast
  note c = inst [THEN conjunct2, rule_format, OF s']
  from c small have "bit (deal_record (cardDeals s' 1) 0) (unat (0::uint256))"
    by (elim conjE) (erule mp)
  moreover from c have "card_X1 (cards (cardDeals s' 1) 0) = 5"
    "card_Y1 (cards (cardDeals s' 1) 0) = 6"
    by simp_all
  ultimately show ?thesis using s' g(1,2,4) nb by blast
qed

theorem C4_counterexample:
  "\<exists>s'. deal 2 10 0 0 [1, 0, 0, 0, 0, 0, 0, 0] (5, 6) (1, 1) 1 ex_dealing = Inr s' \<and>
     playerIndexes s' 1 = playerIndexes ex_dealing 1"
proof -
  have g: "states ex_dealing 1 = DealingCard" "gameContract ex_dealing = 2"
    "unat (0::uint256) < length (playerAddr (playerInfos ex_dealing 1))"
    "playerAddr (playerInfos ex_dealing 1) ! unat (0::uint256) = 10"
    by (simp_all add: ex_dealing_facts)
  from ex_deal_returns obtain s'
    where s': "deal 2 10 0 0 [1, 0, 0, 0, 0, 0, 0, 0] (5, 6) (1, 1) 1 ex_dealing = Inr s'"
    by blast
  from deal_result(4) [OF g s'] have "playerIndexes s' 1 = playerIndexes ex_dealing 1"
    by simp
  with s' show ?thesis by blast
qed







text \<open>
  C7. \<open>search\<close> does not find a card of the initial deck: \<open>initialDeck\<close>, "which
  is the same for all games", is written by \<open>initDeck\<close> for game 0 only, an id
  that is reserved, and holds 52 zeros otherwise. In the reachable storage where the two
  players of game 1 have dealt card 0, so that its record is \<open>(1 << numPlayers) - 1\<close>,
  and the card's \<open>X1\<close> is entry 2 of the literal table of the initial deck and
  neither entry 0 nor entry 1, \<open>search\<close> returns 999999, not 2.
\<close>

theorem C7_search_misses_initial_deck:
  "reachable ex_dealt_entry2 \<and>
   deal_record (cardDeals ex_dealt_entry2 1) 0 = 2 ^ unat (numPlayers ex_dealt_entry2 1) - 1 \<and>
   card_X1 (cards (cardDeals ex_dealt_entry2 1) 0) = X1 fixed_initial_deck ! 2 \<and>
   card_X1 (cards (cardDeals ex_dealt_entry2 1) 0) \<noteq> X1 fixed_initial_deck ! 0 \<and>
   card_X1 (cards (cardDeals ex_dealt_entry2 1) 0) \<noteq> X1 fixed_initial_deck ! 1 \<and>
   initialDeck ex_dealt_entry2 = zero_deck \<and>
   search 0 1 ex_dealt_entry2 = Inr 999999"
proof -
  have r: "deal_record (cardDeals ex_dealt_entry2 1) 0 =
    2 ^ unat (numPlayers ex_dealt_entry2 1) - 1"
    by (simp add: ex_dealt_entry2_facts)
  have c: "card_X1 (cards (cardDeals ex_dealt_entry2 1) 0) = X1 fixed_initial_deck ! 2"
    by (simp add: ex_dealt_entry2_facts fixed_initial_deck_def initial_X1_entry2)
  have d: "card_X1 (cards (cardDeals ex_dealt_entry2 1) 0) \<noteq> X1 fixed_initial_deck ! 0"
    "card_X1 (cards (cardDeals ex_dealt_entry2 1) 0) \<noteq> X1 fixed_initial_deck ! 1"
    by (simp_all add: ex_dealt_entry2_facts fixed_initial_deck_def initial_X1_def)
  have none: "search_loop (X1 zero_deck)
      2763488322167937039616325905516046217694264098671987087929565332380420898366 0
    = INVALID_CARD_INDEX"
    by (rule search_loop_none) (simp_all add: zero_deck_nth)
  have "search 0 1 ex_dealt_entry2 = Inr 999999"
    by (simp add: search_def Let_def ex_dealt_entry2_facts none INVALID_CARD_INDEX_def)
  with r c d ex_dealt_entry2_reachable ex_dealt_entry2_facts(4) show ?thesis by simp
qed

text \<open>
  C8. \<open>decompressEC\<close> checks in this order: \<open>delta\<close> is at most \<open>(Q - 1) / 2\<close>
  ("Ill-formated delta" otherwise), \<open>(x, delta)\<close> is on the curve ("Not on baby jubjub
  curve" otherwise), the selector is 0 or 1 ("Ill-formated selector" otherwise). When all
  three hold it returns \<open>delta\<close> for the selector 1 and \<open>Q - delta\<close>, which does not
  underflow, for the selector 0.
\<close>

theorem C8_decompressEC:
  "(\<not> delta \<le> (Q - 1) div 2 \<longrightarrow> decompressEC x delta sel = Inl IllFormedDelta) \<and>
   (\<not> isOnCurve x delta \<longrightarrow> (\<exists>e. decompressEC x delta sel = Inl e)) \<and>
   (delta \<le> (Q - 1) div 2 \<and> \<not> isOnCurve x delta \<longrightarrow>
      decompressEC x delta sel = Inl NotOnCurve) \<and>
   (sel \<noteq> 0 \<and> sel \<noteq> 1 \<longrightarrow> (\<exists>e. decompressEC x delta sel = Inl e)) \<and>
   (delta \<le> (Q - 1) div 2 \<and> isOnCurve x delta \<and> sel \<noteq> 0 \<and> sel \<noteq> 1 \<longrightarrow>
      decompressEC x delta sel = Inl IllFormedSelector) \<and>
   (delta \<le> (Q - 1) div 2 \<and> isOnCurve x delta \<and> sel = 1 \<longrightarrow>
      decompressEC x delta sel = Inr delta) \<and>
   (delta \<le> (Q - 1) div 2 \<and> isOnCurve x delta \<and> sel = 0 \<longrightarrow>
      decompressEC x delta sel = Inr (Q - delta) \<and> unat (Q - delta) = unat Q - unat delta)"
proof -
  have sub: "unat (Q - delta) = unat Q - unat delta" if "delta \<le> (Q - 1) div 2"
    using half_less_Q [OF that] by (simp add: unat_sub)
  show ?thesis
    unfolding decompressEC_def half_Q [symmetric]
    using sub by auto
qed

theorem C8_witness:
  "1 \<le> (Q - 1) div 2 \<and> isOnCurve 0 1 \<and> decompressEC 0 1 0 = Inr (Q - 1) \<and>
   decompressEC 0 1 1 = Inr 1 \<and> decompressEC 0 1 2 = Inl IllFormedSelector \<and>
   decompressEC 0 0 1 = Inl NotOnCurve \<and> decompressEC 0 Q 1 = Inl IllFormedDelta"
proof -
  have h1: "(1::uint256) \<le> (Q - 1) div 2" "(0::uint256) \<le> (Q - 1) div 2"
    "\<not> Q \<le> (Q - 1) div 2"
    unfolding half_Q by (simp_all add: Q_def)
  note h2 = isOnCurve_0_1 not_isOnCurve_0_0
  from h1 h2 C8_decompressEC [of 1 0 0] C8_decompressEC [of 1 0 1] C8_decompressEC [of 1 0 2]
    C8_decompressEC [of 0 0 1] C8_decompressEC [of Q 0 1]
  show ?thesis by simp
qed

text \<open>
  C9 (amended). An operation (\<open>register\<close>, \<open>shuffle\<close> or \<open>deal\<close>) that fails,
  with \<open>ProofFailed\<close>, \<open>InvalidPublicKey\<close> or any other error, reverts: the storage,
  and so the state of every game, is what it was before. No operation moves a game to
  \<open>GameError\<close>, and none moves a game out of it: after a step a game is in
  \<open>GameError\<close> exactly when it was before. In a reachable storage no game is in
  \<open>GameError\<close>.
\<close>

theorem C9_no_GameError:
  "(\<forall>e. fst (transact (run op) s) = Some e \<longrightarrow> step op s = s) \<and>
   (states (step op s) g = GameError \<longleftrightarrow> states s g = GameError) \<and>
   (reachable s \<longrightarrow> states s g \<noteq> GameError)"
proof -
  have a: "\<forall>e. fst (transact (run op) s) = Some e \<longrightarrow> step op s = s"
    by (auto simp: step_def transact_def split: sum.splits)
  have b: "states (step op s) g = GameError \<longleftrightarrow> states s g = GameError"
  proof (cases "run op s")
    case (Inl e)
    then show ?thesis by (simp add: step_def transact_def)
  next
    case (Inr s')
    then have "step op s = s'" by (simp add: step_def transact_def)
    with run_states [OF Inr, of g] show ?thesis by auto
  qed
  have c: "reachable s \<longrightarrow> states s g \<noteq> GameError"
    using reachable_states [of s g] by auto
  from a b c show ?thesis by simp
qed

theorem C9_witness:
  "reachable ex_shuffling \<and>
   fst (transact (run (Shuffle 2 10 [0, 0, 0, 0, 0, 0, 0, 0] 0 (replicate 52 7)
      (replicate 52 8) (3, 4) 1)) ex_shuffling) = Some ProofFailed \<and>
   step (Shuffle 2 10 [0, 0, 0, 0, 0, 0, 0, 0] 0 (replicate 52 7) (replicate 52 8) (3, 4) 1)
     ex_shuffling = ex_shuffling \<and>
   states ex_shuffling 1 \<noteq> GameError \<and>
   states (step (Shuffle 2 10 [0, 0, 0, 0, 0, 0, 0, 0] 0 (replicate 52 7) (replicate 52 8)
     (3, 4) 1) ex_shuffling) 1 \<noteq> GameError"
proof -
  let ?op = "Shuffle 2 10 [0, 0, 0, 0, 0, 0, 0, 0] 0 (replicate 52 7) (replicate 52 8) (3, 4) 1"
  have f: "fst (transact (run ?op) ex_shuffling) = Some ProofFailed"
    by (simp add: transact_def ex_shuffle_rejected)
  note inst = C9_no_GameError [of ?op ex_shuffling 1]
  from inst ex_reachable(4) have n: "states ex_shuffling 1 \<noteq> GameError" by blast
  from inst f have "step ?op ex_shuffling = ex_shuffling" by blast
  moreover from inst n have "states (step ?op ex_shuffling) 1 \<noteq> GameError" by blast
  ultimately show ?thesis using f n ex_reachable(4) by blast
qed

theorem C9_counterexample:
  "reachable ex_registration \<and>
   fst (transact (run (Register 2 10 (0, 0) 1)) ex_registration) = Some InvalidPublicKey \<and>
   states (step (Register 2 10 (0, 0) 1) ex_registration) 1 = Registration \<and>
   reachable ex_shuffling \<and>
   fst (transact (run (Shuffle 2 10 [0, 0, 0, 0, 0, 0, 0, 0] 0 (replicate 52 7)
      (replicate 52 8) (3, 4) 1)) ex_shuffling) = Some ProofFailed \<and>
   states (step (Shuffle 2 10 [0, 0, 0, 0, 0, 0, 0, 0] 0 (replicate 52 7) (replicate 52 8)
     (3, 4) 1) ex_shuffling) 1 = ShufflingDeck"
  by (simp add: step_def transact_def ex_register_identity ex_shuffle_rejected
      ex_registration_facts ex_shuffling_facts ex_reachable)

text \<open>
  C10. For every input point, \<open>pointMul\<close> with the scalar 0 returns \<open>(0, 0)\<close>, and
  \<open>isOnCurve\<close> rejects \<open>(0, 0)\<close>; so \<open>register\<close>, called by the game contract in
  the registration phase with the point that \<open>pointMul\<close> and \<open>pointAdd\<close> use as
  identity, reverts with "Invalid public key" and the storage stays as it was.
\<close>

theorem C10_identity_rejected_by_register:
  "pointMul x y 0 = (0, 0) \<and> \<not> isOnCurve 0 0 \<and>
   (gameContract s = msg_sender \<and> states s gameId = Registration \<longrightarrow>
      register msg_sender account (pointMul x y 0) gameId s = Inl InvalidPublicKey \<and>
      transact (register msg_sender account (pointMul x y 0) gameId) s =
        (Some InvalidPublicKey, s))"
  by (simp add: pointMul_zero not_isOnCurve_0_0 register_def transact_def)

theorem C10_witness:
  "gameContract ex_registration = 2 \<and> states ex_registration 1 = Registration \<and>
   register 2 10 (pointMul 5 7 0) 1 ex_registration = Inl InvalidPublicKey"
proof -
  have h: "gameContract ex_registration = 2 \<and> states ex_registration 1 = Registration"
    by (simp add: ex_registration_def ex_created_def deploy_def)
  with C10_identity_rejected_by_register [of 5 7 ex_registration 2 1 10]
  show ?thesis by blast
qed

end
